theory Spec2Isabelle
  imports Main "HOL-Library.Word"
begin

section \<open>The filesystem assetstore adapter of girder\<close>

text \<open>
  This theory embeds \<^verbatim>\<open>girder/utility/filesystem_assetstore_adapter.py\<close>: the class
  \<^verbatim>\<open>FilesystemAssetstoreAdapter\<close>, which stores uploaded files under a root directory,
  each named by the SHA-512 digest of its content.

  Conventions. A Python dictionary used as a document becomes a record; the key \<open>k\<close> of
  the upload, file and assetstore documents is the field \<open>upload_k\<close>, \<open>file_k\<close> and
  \<open>assetstore_k\<close>. An exception is a value \<open>Inl e\<close>; a method that changes the disk
  takes the file system and returns the new one. Byte counts kept in documents are
  natural numbers; offsets a caller passes to \<^verbatim>\<open>downloadFile\<close> are integers, as the
  code subtracts them.
\<close>

subsection \<open>Bytes, paths and the file system\<close>

type_synonym byte = "8 word"
type_synonym path = string

datatype error =
    ValidationException string
  | GirderException string
  | OSError
  | IOError
  | UnicodeEncodeError

text \<open>
  The operating system is not code of the repository. It is modelled as a table from
  path strings to nodes, together with what the system reports on request: the names
  \<^verbatim>\<open>os.listdir\<close> returns for a directory, the size \<^verbatim>\<open>os.stat\<close> reports for a directory,
  the write permission (\<^verbatim>\<open>os.access(p, os.W_OK)\<close>) and the modification time
  (\<^verbatim>\<open>os.stat(p).st_mtime\<close>) of each path. Paths are compared as strings: no symbolic
  links, and two spellings of one path are two keys. Of the ways a system call can
  fail, the model has the missing path, the wrong kind of node, the missing parent
  directory and, for the creation of a directory, the parent that is not writable.
\<close>

datatype node = RegularFile "byte list" | Directory

record filesystem =
  nodes :: "path \<rightharpoonup> node"
  dir_entries :: "path \<Rightarrow> string list"
  dir_st_size :: "path \<Rightarrow> nat"
  writable :: "path \<Rightarrow> bool"
  st_mtime :: "path \<Rightarrow> nat"

text \<open>
  The environment of the process: its working directory, the \<^verbatim>\<open>HOME\<close> variable and the
  home directories of the password database.
\<close>

record os_env =
  env_cwd :: path
  env_home :: path
  env_pw_dir :: "string \<rightharpoonup> path"

definition BUF_SIZE :: nat where
  "BUF_SIZE = 65536"

definition os_path_exists :: "filesystem \<Rightarrow> path \<Rightarrow> bool" where
  "os_path_exists fs p = (nodes fs p \<noteq> None)"

definition os_path_isfile :: "filesystem \<Rightarrow> path \<Rightarrow> bool" where
  "os_path_isfile fs p = (case nodes fs p of Some (RegularFile c) \<Rightarrow> True | _ \<Rightarrow> False)"

definition os_path_isdir :: "filesystem \<Rightarrow> path \<Rightarrow> bool" where
  "os_path_isdir fs p = (nodes fs p = Some Directory)"

text \<open>\<^verbatim>\<open>posixpath.join\<close> of two components.\<close>

definition os_path_join :: "path \<Rightarrow> path \<Rightarrow> path" where
  "os_path_join a b =
     (if b \<noteq> [] \<and> hd b = CHR ''/'' then b
      else if a = [] \<or> last a = CHR ''/'' then a @ b
      else a @ ''/'' @ b)"

definition os_path_isabs :: "path \<Rightarrow> bool" where
  "os_path_isabs p = (p \<noteq> [] \<and> hd p = CHR ''/'')"

definition rstrip_slash :: "path \<Rightarrow> path" where
  "rstrip_slash p = rev (dropWhile (\<lambda>c. c = CHR ''/'') (rev p))"

text \<open>
  \<^verbatim>\<open>posixpath.dirname\<close>: everything up to the last slash, without trailing slashes
  unless it consists of slashes only.
\<close>

definition os_path_dirname :: "path \<Rightarrow> path" where
  "os_path_dirname p =
     (let head = rev (dropWhile (\<lambda>c. c \<noteq> CHR ''/'') (rev p))
      in if head \<noteq> [] \<and> \<not> list_all (\<lambda>c. c = CHR ''/'') head then rstrip_slash head else head)"

definition os_path_basename :: "path \<Rightarrow> path" where
  "os_path_basename p = rev (takeWhile (\<lambda>c. c \<noteq> CHR ''/'') (rev p))"

text \<open>
  \<^verbatim>\<open>posixpath.expanduser\<close>: a leading \<open>~\<close> or \<open>~user\<close> is replaced by the home directory,
  and the path is returned unchanged when the user is unknown.
\<close>

definition os_path_expanduser :: "os_env \<Rightarrow> path \<Rightarrow> path" where
  "os_path_expanduser env p =
     (if p = [] \<or> hd p \<noteq> CHR ''~'' then p
      else let i = 1 + length (takeWhile (\<lambda>c. c \<noteq> CHR ''/'') (tl p));
               userhome = (if i = 1 then Some (env_home env) else env_pw_dir env (take (i - 1) (tl p)))
           in case userhome of
                None \<Rightarrow> p
              | Some h \<Rightarrow> (if rstrip_slash h @ drop i p = [] then ''/'' else rstrip_slash h @ drop i p))"

text \<open>\<^verbatim>\<open>str.split(sep)\<close> for a one-character separator, and \<^verbatim>\<open>'/'.join(comps)\<close>.\<close>

fun split_sep :: "char \<Rightarrow> string \<Rightarrow> string list" where
  "split_sep s [] = [[]]"
| "split_sep s (c # cs) =
     (if c = s then [] # split_sep s cs
      else (case split_sep s cs of [] \<Rightarrow> [[c]] | x # xs \<Rightarrow> (c # x) # xs))"

fun slash_join :: "string list \<Rightarrow> string" where
  "slash_join [] = []"
| "slash_join [x] = x"
| "slash_join (x # y # zs) = x @ ''/'' @ slash_join (y # zs)"

text \<open>The loop of \<^verbatim>\<open>posixpath.normpath\<close> over the components of the path.\<close>

fun normpath_comps :: "nat \<Rightarrow> string list \<Rightarrow> string list \<Rightarrow> string list" where
  "normpath_comps initial_slashes new_comps [] = new_comps"
| "normpath_comps initial_slashes new_comps (cmp # comps) =
     (if cmp = [] \<or> cmp = ''.'' then normpath_comps initial_slashes new_comps comps
      else if cmp \<noteq> ''..'' \<or> (initial_slashes = 0 \<and> new_comps = [])
                \<or> (new_comps \<noteq> [] \<and> last new_comps = ''..'')
           then normpath_comps initial_slashes (new_comps @ [cmp]) comps
      else if new_comps \<noteq> [] then normpath_comps initial_slashes (butlast new_comps) comps
      else normpath_comps initial_slashes new_comps comps)"

definition os_path_normpath :: "path \<Rightarrow> path" where
  "os_path_normpath p =
     (if p = [] then ''.''
      else let initial_slashes =
                 (if hd p = CHR ''/''
                  then (if take 2 p = ''//'' \<and> take 3 p \<noteq> ''///'' then 2 else 1)
                  else (0::nat));
               r = replicate initial_slashes (CHR ''/'')
                     @ slash_join (normpath_comps initial_slashes [] (split_sep (CHR ''/'') p))
           in if r = [] then ''.'' else r)"

definition os_path_abspath :: "os_env \<Rightarrow> path \<Rightarrow> path" where
  "os_path_abspath env p =
     os_path_normpath (if os_path_isabs p then p else os_path_join (env_cwd env) p)"

text \<open>\<^verbatim>\<open>os.stat(p).st_size\<close>; \<^verbatim>\<open>os.stat\<close> raises when the path does not exist.\<close>

definition os_stat_size :: "filesystem \<Rightarrow> path \<Rightarrow> error + nat" where
  "os_stat_size fs p =
     (case nodes fs p of
        None \<Rightarrow> Inl OSError
      | Some Directory \<Rightarrow> Inr (dir_st_size fs p)
      | Some (RegularFile content) \<Rightarrow> Inr (length content))"

definition os_access_W :: "filesystem \<Rightarrow> path \<Rightarrow> bool" where
  "os_access_W fs p = (os_path_exists fs p \<and> writable fs p)"

text \<open>
  The directories above a path, outermost first: the root directory for an absolute
  path, and the proper prefixes of the path that end before a slash.
\<close>

definition ancestors :: "path \<Rightarrow> path list" where
  "ancestors p =
     (if os_path_isabs p \<and> 1 < length p then [''/''] else [])
     @ map (\<lambda>i. take i p) (filter (\<lambda>i. p ! i = CHR ''/'') [1..<length p])"

text \<open>
  New directories are made in the deepest directory above the path that exists, and
  \<^verbatim>\<open>mkdir\<close> raises when that directory is not writable (or is not there at all).
\<close>

definition mkdir_allowed :: "filesystem \<Rightarrow> path \<Rightarrow> bool" where
  "mkdir_allowed fs p =
     (case rev (filter (os_path_exists fs) (ancestors p)) of
        [] \<Rightarrow> False
      | a # outer \<Rightarrow> writable fs a)"

text \<open>
  \<^verbatim>\<open>os.makedirs\<close> creates the directory and every missing one above it. It raises when
  the path exists, when a regular file stands where a directory is needed, and when
  the directory to create in is not writable. What \<^verbatim>\<open>os.access\<close> answers for the new
  directory is what the table holds for its path.
\<close>

definition os_makedirs :: "filesystem \<Rightarrow> path \<Rightarrow> filesystem \<times> (error + unit)" where
  "os_makedirs fs p =
     (if p = [] \<or> os_path_exists fs p \<or> list_ex (os_path_isfile fs) (ancestors p)
           \<or> \<not> mkdir_allowed fs p
      then (fs, Inl OSError)
      else (fs\<lparr>nodes := (\<lambda>q. if q = p \<or> q \<in> set (ancestors p) then Some Directory else nodes fs q)\<rparr>,
            Inr ()))"

subsection \<open>Documents\<close>

record assetstore_doc =
  assetstore_root :: path
  assetstore_id :: nat

record file_doc =
  file_name :: string
  file_sha512 :: string
  file_path :: path
  file_size :: nat
  file_imported :: bool
  file_mtime :: nat
  file_assetstoreId :: nat

subsection \<open>downloadFile\<close>

definition fullPath :: "assetstore_doc \<Rightarrow> file_doc \<Rightarrow> path" where
  "fullPath assetstore file =
     (if file_imported file then file_path file
      else os_path_join (assetstore_root assetstore) (file_path file))"

text \<open>
  The loop of the inner generator \<^verbatim>\<open>stream\<close>. \<open>content\<close> and \<open>pos\<close> are the open file
  and its position; \<^verbatim>\<open>f.read(readLen)\<close> returns the at most \<open>readLen\<close> bytes that follow
  the position. The result lists the chunks the generator yields. As in the source,
  \<open>bytesRead\<close> advances by \<open>readLen\<close>, not by the length of what was read.
\<close>

function stream_loop :: "byte list \<Rightarrow> int \<Rightarrow> int \<Rightarrow> nat \<Rightarrow> byte list list" where
  "stream_loop content endByte bytesRead pos =
     (if min (int BUF_SIZE) (endByte - bytesRead) \<le> 0 then []
      else if take (nat (min (int BUF_SIZE) (endByte - bytesRead))) (drop pos content) = [] then []
      else take (nat (min (int BUF_SIZE) (endByte - bytesRead))) (drop pos content)
           # stream_loop content endByte
               (bytesRead + min (int BUF_SIZE) (endByte - bytesRead))
               (pos + length (take (nat (min (int BUF_SIZE) (endByte - bytesRead))) (drop pos content))))"
  by pat_completeness auto
termination
  by (relation "measure (\<lambda>(content, endByte, bytesRead, pos). nat (endByte - bytesRead))")
     (auto simp: BUF_SIZE_def)

declare stream_loop.simps [simp del]

text \<open>
  The generator opens the file when it is first iterated, so it takes the file system of
  that moment; \<^verbatim>\<open>open\<close> raises when the path is not a readable file. \<^verbatim>\<open>f.seek(offset)\<close>
  is only called for a positive offset.
\<close>

definition stream :: "path \<Rightarrow> int \<Rightarrow> int \<Rightarrow> filesystem \<Rightarrow> error + byte list list" where
  "stream p offset endByte fs =
     (case nodes fs p of
        Some (RegularFile content) \<Rightarrow>
          Inr (stream_loop content endByte offset (if offset > 0 then nat offset else 0))
      | _ \<Rightarrow> Inl IOError)"

text \<open>
  \<^verbatim>\<open>downloadFile\<close> returns the generator function. The response headers it sets when
  \<^verbatim>\<open>headers\<close> is true belong to the web framework and \<^verbatim>\<open>setContentHeaders\<close> to the
  abstract adapter; they do not touch the generator and are left out.
\<close>

definition downloadFile ::
  "assetstore_doc \<Rightarrow> filesystem \<Rightarrow> file_doc \<Rightarrow> int \<Rightarrow> int option
     \<Rightarrow> error + (filesystem \<Rightarrow> error + byte list list)" where
  "downloadFile assetstore fs file offset endByte =
     (let endByte' = (case endByte of
                        None \<Rightarrow> int (file_size file)
                      | Some e \<Rightarrow> if e > int (file_size file) then int (file_size file) else e);
          p = fullPath assetstore file
      in if \<not> os_path_isfile fs p
         then Inl (GirderException ''girder.utility.filesystem_assetstore_adapter.file-does-not-exist'')
         else Inr (stream p offset endByte'))"

subsection \<open>The incremental SHA-512 checksum\<close>

text \<open>
  \<^verbatim>\<open>hashlib.sha512\<close> belongs to Python's library. All that the adapter observes of a
  checksum object is a function of the bytes fed to it so far, so the object is
  represented by those bytes, and the digest function itself is a parameter
  \<open>sha512 :: byte list \<Rightarrow> 512 word\<close> of the one method that reads a digest.
\<close>

datatype checksum = Checksum "byte list"

definition sha512_new :: checksum where
  "sha512_new = Checksum []"

fun checksum_update :: "checksum \<Rightarrow> byte list \<Rightarrow> checksum" where
  "checksum_update (Checksum fed) data = Checksum (fed @ data)"

definition hex_char :: "nat \<Rightarrow> char" where
  "hex_char n = ''0123456789abcdef'' ! (n mod 16)"

text \<open>The 128 lower-case hexadecimal digits of a 512-bit digest, most significant first.\<close>

definition hex_of_digest :: "512 word \<Rightarrow> string" where
  "hex_of_digest w = map (\<lambda>i. hex_char (unat w div 16 ^ (127 - i))) [0..<128]"

fun hexdigest :: "(byte list \<Rightarrow> 512 word) \<Rightarrow> checksum \<Rightarrow> string" where
  "hexdigest sha512 (Checksum fed) = hex_of_digest (sha512 fed)"

text \<open>
  Modelled from the spec: the module \<^verbatim>\<open>sha512_state\<close> (\<^verbatim>\<open>serializeHex\<close>,
  \<^verbatim>\<open>restoreHex\<close>) is not among the sources. The spec (4.1) asks that restoring an
  exported state gives a checksum that behaves as the exported one on all later input;
  the serialized state is therefore a value from which exactly the checksum is restored.
\<close>

datatype hexstate = HexState "byte list"

fun serializeHex :: "checksum \<Rightarrow> hexstate" where
  "serializeHex (Checksum fed) = HexState fed"

fun restoreHex :: "hexstate \<Rightarrow> checksum" where
  "restoreHex (HexState fed) = Checksum fed"

subsection \<open>Upload sessions and chunks\<close>

record upload_doc =
  upload_tempFile :: path
  upload_sha512state :: hexstate
  upload_received :: nat
  upload_size :: nat

text \<open>
  A chunk is a text string (\<^verbatim>\<open>six.text_type\<close>, a list of code points) or a byte string
  (\<^verbatim>\<open>six.binary_type\<close>). \<^verbatim>\<open>chunk.encode('utf8')\<close> is Python's UTF-8 encoder; a lone
  surrogate or a number that is no code point has no encoding.
\<close>

datatype chunk = TextChunk "nat list" | ByteChunk "byte list"

definition utf8_char :: "nat \<Rightarrow> byte list option" where
  "utf8_char c =
     (if c < 0x80 then Some [of_nat c]
      else if c < 0x800 then Some [of_nat (0xC0 + c div 64), of_nat (0x80 + c mod 64)]
      else if 0xD800 \<le> c \<and> c < 0xE000 then None
      else if c < 0x10000 then
        Some [of_nat (0xE0 + c div 4096), of_nat (0x80 + (c div 64) mod 64), of_nat (0x80 + c mod 64)]
      else if c < 0x110000 then
        Some [of_nat (0xF0 + c div 262144), of_nat (0x80 + (c div 4096) mod 64),
              of_nat (0x80 + (c div 64) mod 64), of_nat (0x80 + c mod 64)]
      else None)"

fun encode_utf8 :: "nat list \<Rightarrow> byte list option" where
  "encode_utf8 [] = Some []"
| "encode_utf8 (c # cs) =
     (case utf8_char c of
        None \<Rightarrow> None
      | Some bs \<Rightarrow> (case encode_utf8 cs of None \<Rightarrow> None | Some rest \<Rightarrow> Some (bs @ rest)))"

text \<open>The bytes the two \<^verbatim>\<open>isinstance\<close> branches of \<^verbatim>\<open>uploadChunk\<close> wrap in a \<^verbatim>\<open>BytesIO\<close>.\<close>

fun chunk_bytes :: "chunk \<Rightarrow> byte list option" where
  "chunk_bytes (TextChunk t) = encode_utf8 t"
| "chunk_bytes (ByteChunk b) = Some b"

text \<open>
  Modelled from the spec: \<^verbatim>\<open>getChunkSize\<close> and \<^verbatim>\<open>checkUploadSize\<close> are methods of
  \<^verbatim>\<open>AbstractAssetstoreAdapter\<close>, which is not among the sources. The spec (4.2, step 1)
  says that the appender validates that the chunk would not push
  \<open>received + len(chunk)\<close> over \<open>size\<close> and fails with \<open>SizeExceeded\<close> otherwise. Python's
  \<^verbatim>\<open>len\<close> counts the code points of a text string and the bytes of a byte string. The
  source catches the failure as a \<^verbatim>\<open>ValidationException\<close>.
\<close>

fun getChunkSize :: "chunk \<Rightarrow> nat" where
  "getChunkSize (TextChunk t) = length t"
| "getChunkSize (ByteChunk b) = length b"

definition checkUploadSize :: "upload_doc \<Rightarrow> nat \<Rightarrow> error option" where
  "checkUploadSize upload chunkSize =
     (if upload_received upload + chunkSize > upload_size upload
      then Some (ValidationException ''SizeExceeded'') else None)"

subsection \<open>uploadChunk\<close>

text \<open>
  The catch-up loop: the temporary file is read from \<open>pos\<close> in blocks of \<open>BUF_SIZE\<close>
  bytes until a read returns nothing, and each block is fed to the checksum.
\<close>

function catchup_loop :: "byte list \<Rightarrow> nat \<Rightarrow> checksum \<Rightarrow> checksum" where
  "catchup_loop content pos checksum =
     (if take BUF_SIZE (drop pos content) = [] then checksum
      else catchup_loop content (pos + length (take BUF_SIZE (drop pos content)))
             (checksum_update checksum (take BUF_SIZE (drop pos content))))"
  by pat_completeness auto
termination
  by (relation "measure (\<lambda>(content, pos, checksum). length content - pos)")
     (auto simp: BUF_SIZE_def)

declare catchup_loop.simps [simp del]

text \<open>
  The write loop. \<open>rest\<close> is what the \<^verbatim>\<open>BytesIO\<close> has left to read, \<open>sz\<close> the source's
  \<^verbatim>\<open>size\<close>, \<open>content\<close> the temporary file, which is open for appending. The loop stops
  before a read once \<open>received + size\<close> exceeds the declared size.
\<close>

function write_loop ::
  "upload_doc \<Rightarrow> byte list \<Rightarrow> nat \<Rightarrow> byte list \<Rightarrow> checksum \<Rightarrow> nat \<times> byte list \<times> checksum" where
  "write_loop upload rest sz content checksum =
     (if \<not> upload_received upload + sz > upload_size upload then
        (if take BUF_SIZE rest = [] then (sz, content, checksum)
         else write_loop upload (drop BUF_SIZE rest) (sz + length (take BUF_SIZE rest))
                (content @ take BUF_SIZE rest) (checksum_update checksum (take BUF_SIZE rest)))
      else (sz, content, checksum))"
  by pat_completeness auto
termination
  by (relation "measure (\<lambda>(upload, rest, sz, content, checksum). length rest)")
     (auto simp: BUF_SIZE_def)

declare write_loop.simps [simp del]

text \<open>\<^verbatim>\<open>requestOffset\<close> is the size of the temporary file.\<close>

definition requestOffset :: "filesystem \<Rightarrow> upload_doc \<Rightarrow> error + nat" where
  "requestOffset fs upload = os_stat_size fs (upload_tempFile upload)"

definition write_file :: "filesystem \<Rightarrow> path \<Rightarrow> byte list \<Rightarrow> filesystem" where
  "write_file fs p content = fs\<lparr>nodes := (nodes fs)(p \<mapsto> RegularFile content)\<rparr>"

text \<open>\<^verbatim>\<open>file.truncate(n)\<close>: the file keeps its first \<open>n\<close> bytes, padded with zeros when shorter.\<close>

definition file_truncate :: "byte list \<Rightarrow> nat \<Rightarrow> byte list" where
  "file_truncate content n = take n content @ replicate (n - length content) 0"

text \<open>
  \<^verbatim>\<open>uploadChunk\<close> returns the file system it leaves behind together with the raised
  exception or the updated upload document. The upload document is only assigned to
  after the second size check, so a raise leaves it as it was. Both \<^verbatim>\<open>open\<close> calls
  raise when the temporary path is a directory.
\<close>

definition uploadChunk ::
  "filesystem \<Rightarrow> upload_doc \<Rightarrow> chunk \<Rightarrow> filesystem \<times> (error + upload_doc)" where
  "uploadChunk fs upload chunk =
     (case checkUploadSize upload (getChunkSize chunk) of
        Some e \<Rightarrow> (fs, Inl e)
      | None \<Rightarrow>
        (case chunk_bytes chunk of
           None \<Rightarrow> (fs, Inl UnicodeEncodeError)
         | Some bytes \<Rightarrow>
           (let checksum = restoreHex (upload_sha512state upload) in
            case requestOffset fs upload of
              Inl e \<Rightarrow> (fs, Inl e)
            | Inr offset \<Rightarrow>
              (case nodes fs (upload_tempFile upload) of
                 Some (RegularFile content) \<Rightarrow>
                   (let checksum1 =
                          (if offset > upload_received upload
                           then catchup_loop content (upload_received upload) checksum
                           else checksum);
                        (sz, content', checksum2) = write_loop upload bytes 0 content checksum1;
                        fs1 = write_file fs (upload_tempFile upload) content'
                    in case checkUploadSize upload sz of
                         Some e \<Rightarrow>
                           (write_file fs1 (upload_tempFile upload)
                              (file_truncate content' (upload_received upload)), Inl e)
                       | None \<Rightarrow>
                           (fs1, Inr (upload\<lparr>upload_sha512state := serializeHex checksum2,
                                             upload_received := upload_received upload + sz\<rparr>)))
               | _ \<Rightarrow> (fs, Inl IOError)))))"

subsection \<open>cancelUpload\<close>

text \<open>\<^verbatim>\<open>os.remove\<close> and \<^verbatim>\<open>os.unlink\<close> delete a regular file and raise on anything else.\<close>

definition os_remove :: "filesystem \<Rightarrow> path \<Rightarrow> filesystem \<times> (error + unit)" where
  "os_remove fs p =
     (case nodes fs p of
        Some (RegularFile content) \<Rightarrow> (fs\<lparr>nodes := (nodes fs)(p := None)\<rparr>, Inr ())
      | _ \<Rightarrow> (fs, Inl OSError))"

definition cancelUpload :: "filesystem \<Rightarrow> upload_doc \<Rightarrow> filesystem \<times> (error + unit)" where
  "cancelUpload fs upload =
     (if os_path_exists fs (upload_tempFile upload)
      then os_remove fs (upload_tempFile upload)
      else (fs, Inr ()))"

subsection \<open>finalizeUpload\<close>

text \<open>
  \<^verbatim>\<open>shutil.move\<close> of a regular file: into the destination when that is a directory
  (raising when the name is taken there), onto the destination otherwise. The
  directory of the final destination has to exist. A temporary file is a regular file;
  moving anything else is an error of the model.
\<close>

definition shutil_move :: "filesystem \<Rightarrow> path \<Rightarrow> path \<Rightarrow> filesystem \<times> (error + unit)" where
  "shutil_move fs src dst =
     (let real_dst = (if os_path_isdir fs dst
                      then os_path_join dst (os_path_basename (rstrip_slash src)) else dst)
      in if os_path_isdir fs dst \<and> os_path_exists fs real_dst then (fs, Inl OSError)
         else (case nodes fs src of
                 Some (RegularFile content) \<Rightarrow>
                   (if os_path_isdir fs (os_path_dirname real_dst)
                    then (fs\<lparr>nodes := (nodes fs)(src := None, real_dst \<mapsto> RegularFile content)\<rparr>, Inr ())
                    else (fs, Inl IOError))
               | _ \<Rightarrow> (fs, Inl IOError)))"

text \<open>
  \<^verbatim>\<open>finalizeUpload\<close>. The \<^verbatim>\<open>os.chmod\<close> after the move changes permission bits of the
  published file, which no method reads, and its failure is swallowed: it is no step
  of the model.
\<close>

definition finalizeUpload ::
  "(byte list \<Rightarrow> 512 word) \<Rightarrow> assetstore_doc \<Rightarrow> filesystem \<Rightarrow> upload_doc \<Rightarrow> file_doc
     \<Rightarrow> filesystem \<times> (error + file_doc)" where
  "finalizeUpload sha512 assetstore fs upload file =
     (let hash = hexdigest sha512 (restoreHex (upload_sha512state upload));
          dir = os_path_join (take 2 hash) (take 2 (drop 2 hash));
          absdir = os_path_join (assetstore_root assetstore) dir;
          pth = os_path_join dir hash;
          abspath = os_path_join (assetstore_root assetstore) pth
      in case (if \<not> os_path_exists fs absdir then os_makedirs fs absdir else (fs, Inr ())) of
           (fs1, Inl e) \<Rightarrow> (fs1, Inl e)
         | (fs1, Inr u1) \<Rightarrow>
           (case (if os_path_exists fs1 abspath
                  then os_remove fs1 (upload_tempFile upload)
                  else shutil_move fs1 (upload_tempFile upload) abspath) of
              (fs2, Inl e) \<Rightarrow> (fs2, Inl e)
            | (fs2, Inr u2) \<Rightarrow> (fs2, Inr (file\<lparr>file_sha512 := hash, file_path := pth\<rparr>))))"

subsection \<open>The file collection\<close>

text \<open>
  Modelled from the spec: the file model (\<^verbatim>\<open>self.model('file')\<close>) is not among the
  sources. The spec (6) describes a metadata-record store with \<open>find(query)\<close> giving
  the matching records with their count, and \<open>create\<close> and \<open>save\<close>. The collection is
  the list of its documents; a query is a dictionary of required field values; a
  count that honours the cursor's limit is capped by it.
\<close>

datatype field_value = StrVal string | NatVal nat | BoolVal bool

type_synonym query = "(string \<times> field_value) list"

definition file_get :: "file_doc \<Rightarrow> string \<Rightarrow> field_value option" where
  "file_get file k =
     (if k = ''name'' then Some (StrVal (file_name file))
      else if k = ''sha512'' then Some (StrVal (file_sha512 file))
      else if k = ''path'' then Some (StrVal (file_path file))
      else if k = ''size'' then Some (NatVal (file_size file))
      else if k = ''imported'' then Some (BoolVal (file_imported file))
      else if k = ''mtime'' then Some (NatVal (file_mtime file))
      else if k = ''assetstoreId'' then Some (NatVal (file_assetstoreId file))
      else None)"

definition matches :: "query \<Rightarrow> file_doc \<Rightarrow> bool" where
  "matches q file = list_all (\<lambda>(k, v). file_get file k = Some v) q"

definition file_find :: "file_doc list \<Rightarrow> query \<Rightarrow> file_doc list" where
  "file_find collection q = filter (matches q) collection"

definition count_with_limit :: "nat \<Rightarrow> 'a list \<Rightarrow> nat" where
  "count_with_limit limit cursor = min limit (length cursor)"

text \<open>\<^verbatim>\<open>dict(base, **extra)\<close>: the keys of \<open>extra\<close> replace those of \<open>base\<close>.\<close>

definition dict_merge :: "query \<Rightarrow> query \<Rightarrow> query" where
  "dict_merge base extra = extra @ filter (\<lambda>(k, v). k \<notin> set (map fst extra)) base"

subsection \<open>deleteFile\<close>

definition deleteFile ::
  "assetstore_doc \<Rightarrow> file_doc list \<Rightarrow> filesystem \<Rightarrow> file_doc \<Rightarrow> filesystem \<times> (error + unit)" where
  "deleteFile assetstore collection fs file =
     (if file_imported file then (fs, Inr ())
      else let q = [(''sha512'', StrVal (file_sha512 file)),
                    (''assetstoreId'', NatVal (assetstore_id assetstore))];
               matching = file_find collection q
           in if count_with_limit 2 matching = 1
              then (let p = os_path_join (assetstore_root assetstore) (file_path file)
                    in if os_path_isfile fs p then os_remove fs p else (fs, Inr ()))
              else (fs, Inr ()))"

subsection \<open>findInvalidFiles\<close>

record finding =
  finding_reason :: string
  finding_file :: file_doc
  finding_path :: path

definition os_path_getsize :: "filesystem \<Rightarrow> path \<Rightarrow> nat" where
  "os_path_getsize fs p = (case os_stat_size fs p of Inr n \<Rightarrow> n | Inl e \<Rightarrow> 0)"

text \<open>
  The body of the loop over the cursor: what the generator yields for one file.
  \<^verbatim>\<open>os.path.getsize\<close> is only reached for a path that is a regular file.
\<close>

definition check_file :: "assetstore_doc \<Rightarrow> filesystem \<Rightarrow> bool \<Rightarrow> file_doc \<Rightarrow> finding list" where
  "check_file assetstore fs checkSize file =
     (let p = fullPath assetstore file
      in if \<not> os_path_isfile fs p
         then [\<lparr>finding_reason = ''missing'', finding_file = file, finding_path = p\<rparr>]
         else if checkSize \<and> os_path_getsize fs p \<noteq> file_size file
         then [\<lparr>finding_reason = ''size'', finding_file = file, finding_path = p\<rparr>]
         else [])"

text \<open>
  \<^verbatim>\<open>findInvalidFiles\<close>, iterated to its end. The calls of \<^verbatim>\<open>progress.update\<close> go to a
  collaborator outside the adapter and do not bear on what is yielded; they are left
  out.
\<close>

definition findInvalidFiles ::
  "assetstore_doc \<Rightarrow> file_doc list \<Rightarrow> filesystem \<Rightarrow> query option \<Rightarrow> bool \<Rightarrow> finding list" where
  "findInvalidFiles assetstore collection fs filters checkSize =
     (let filters' = (case filters of None \<Rightarrow> [] | Some f \<Rightarrow> f);
          q = dict_merge [(''assetstoreId'', NatVal (assetstore_id assetstore))] filters';
          cursor = file_find collection q
      in concat (map (check_file assetstore fs checkSize) cursor))"

subsection \<open>validateInfo\<close>

definition validateInfo ::
  "os_env \<Rightarrow> filesystem \<Rightarrow> assetstore_doc \<Rightarrow> filesystem \<times> (error + assetstore_doc)" where
  "validateInfo env fs doc =
     (let doc' = doc\<lparr>assetstore_root := os_path_expanduser env (assetstore_root doc)\<rparr>;
          root = assetstore_root doc'
      in if \<not> os_path_isabs root
         then (fs, Inl (ValidationException
                 ''You must provide an absolute path for the root directory.''))
         else (case (if \<not> os_path_isdir fs root then os_makedirs fs root else (fs, Inr ())) of
                 (fs1, Inl e) \<Rightarrow>
                   (fs1, Inl (ValidationException
                      (''Could not make directory '' @ [CHR 0x22] @ root @ [CHR 0x22] @ ''.'')))
               | (fs1, Inr u1) \<Rightarrow>
                   (if \<not> os_access_W fs1 root
                    then (fs1, Inl (ValidationException
                            (''Unable to write into directory '' @ [CHR 0x22] @ root @ [CHR 0x22] @ ''.'')))
                    else (fs1, Inr doc'))))"

subsection \<open>importFile and importData\<close>

text \<open>
  Modelled from the spec: the folder, item and file models (\<^verbatim>\<open>createFolder\<close>,
  \<^verbatim>\<open>createItem\<close>, \<^verbatim>\<open>createFile\<close>, \<^verbatim>\<open>save\<close>) are not among the sources. By the spec
  (4.7) a directory becomes a container record, reusing a container of the same name
  under the same parent, and a file becomes a content record; so a created folder or
  item is determined by its parent and its name, and the created file record carries
  the name, the assetstore and the size it is given. \<^verbatim>\<open>save\<close> returns the saved document.
  Users are identified by a number.
\<close>

datatype parent_doc = ParentDoc nat | FolderDoc parent_doc string string

datatype item_doc = ItemDoc parent_doc string

definition createFolder :: "parent_doc \<Rightarrow> string \<Rightarrow> string \<Rightarrow> nat \<Rightarrow> parent_doc" where
  "createFolder parent name parentType creator = FolderDoc parent parentType name"

definition createItem :: "string \<Rightarrow> nat \<Rightarrow> parent_doc \<Rightarrow> item_doc" where
  "createItem name creator folder = ItemDoc folder name"

definition createFile :: "string \<Rightarrow> nat \<Rightarrow> item_doc \<Rightarrow> assetstore_doc \<Rightarrow> nat \<Rightarrow> file_doc" where
  "createFile name creator item assetstore sz =
     \<lparr>file_name = name, file_sha512 = [], file_path = [], file_size = sz,
      file_imported = False, file_mtime = 0, file_assetstoreId = assetstore_id assetstore\<rparr>"

definition file_save :: "file_doc \<Rightarrow> file_doc" where
  "file_save file = file"

definition importFile ::
  "os_env \<Rightarrow> assetstore_doc \<Rightarrow> filesystem \<Rightarrow> item_doc \<Rightarrow> path \<Rightarrow> nat \<Rightarrow> string option
     \<Rightarrow> error + file_doc" where
  "importFile env assetstore fs item p user name =
     (case os_stat_size fs p of
        Inl e \<Rightarrow> Inl e
      | Inr stat_st_size \<Rightarrow>
          (let name' = (case name of None \<Rightarrow> os_path_basename p
                        | Some n \<Rightarrow> if n = [] then os_path_basename p else n);
               file = createFile name' user item assetstore stat_st_size
           in Inr (file_save (file\<lparr>file_path := os_path_abspath env (os_path_expanduser env p),
                                     file_mtime := st_mtime fs p,
                                     file_imported := True\<rparr>))))"

text \<open>
  \<^verbatim>\<open>importData\<close> recurses into the directories it lists, so it ends only when the tree
  below the import path is finite; \<open>fuel\<close> bounds the depth, and the result is \<open>None\<close>
  when it runs out. The calls of \<^verbatim>\<open>progress.update\<close> are left out, as in the scan. Otherwise the result lists the file documents saved, each with
  the item it was created under, and the exception that stopped the import, if any:
  what was saved before an exception stays saved.
\<close>

fun importData ::
  "nat \<Rightarrow> os_env \<Rightarrow> assetstore_doc \<Rightarrow> filesystem \<Rightarrow> parent_doc \<Rightarrow> string \<Rightarrow> path \<Rightarrow> nat
     \<Rightarrow> ((item_doc \<times> file_doc) list \<times> error option) option"
and importEntries ::
  "nat \<Rightarrow> os_env \<Rightarrow> assetstore_doc \<Rightarrow> filesystem \<Rightarrow> parent_doc \<Rightarrow> string \<Rightarrow> path \<Rightarrow> nat
     \<Rightarrow> string list \<Rightarrow> ((item_doc \<times> file_doc) list \<times> error option) option" where
  "importData fuel env assetstore fs parent parentType importPath user =
     (if \<not> os_path_isdir fs importPath
      then Some ([], Some (ValidationException (''No such directory: '' @ importPath @ ''.'')))
      else importEntries fuel env assetstore fs parent parentType importPath user
             (dir_entries fs importPath))"
| "importEntries fuel env assetstore fs parent parentType importPath user [] = Some ([], None)"
| "importEntries 0 env assetstore fs parent parentType importPath user (name # names) =
     (if os_path_isdir fs (os_path_join importPath name) then None
      else if parentType \<noteq> ''folder''
      then Some ([], Some (ValidationException
             (''Files cannot be imported directly underneath a '' @ parentType @ ''.'')))
      else (case importFile env assetstore fs (createItem name user parent)
                   (os_path_join importPath name) user (Some name) of
              Inl e \<Rightarrow> Some ([], Some e)
            | Inr file \<Rightarrow>
                (case importEntries 0 env assetstore fs parent parentType importPath user names of
                   None \<Rightarrow> None
                 | Some (rest, r) \<Rightarrow> Some ((createItem name user parent, file) # rest, r))))"
| "importEntries (Suc fuel) env assetstore fs parent parentType importPath user (name # names) =
     (if os_path_isdir fs (os_path_join importPath name)
      then (case importData fuel env assetstore fs (createFolder parent name parentType user)
                   ''folder'' (os_path_join importPath name) user of
              None \<Rightarrow> None
            | Some (saved, Some e) \<Rightarrow> Some (saved, Some e)
            | Some (saved, None) \<Rightarrow>
                (case importEntries (Suc fuel) env assetstore fs parent parentType importPath user names of
                   None \<Rightarrow> None
                 | Some (rest, r) \<Rightarrow> Some (saved @ rest, r)))
      else if parentType \<noteq> ''folder''
      then Some ([], Some (ValidationException
             (''Files cannot be imported directly underneath a '' @ parentType @ ''.'')))
      else (case importFile env assetstore fs (createItem name user parent)
                   (os_path_join importPath name) user (Some name) of
              Inl e \<Rightarrow> Some ([], Some e)
            | Inr file \<Rightarrow>
                (case importEntries (Suc fuel) env assetstore fs parent parentType importPath user names of
                   None \<Rightarrow> None
                 | Some (rest, r) \<Rightarrow> Some ((createItem name user parent, file) # rest, r))))"

subsection \<open>Notions of the specification\<close>

text \<open>
  The canonical shard path as the specification words it (3, 4.3): the first two
  hexadecimal characters of the digest, the next two, and the full digest, separated by
  slashes. It is compared below with the path \<^verbatim>\<open>finalizeUpload\<close> computes.
\<close>

definition spec_shard_path :: "string \<Rightarrow> path" where
  "spec_shard_path digestHex =
     take 2 digestHex @ ''/'' @ take 2 (drop 2 digestHex) @ ''/'' @ digestHex"

text \<open>
  The directory tree below a path is at most \<open>d\<close> directories deep: the bound under
  which \<^verbatim>\<open>importData\<close> is shown to return.
\<close>

fun import_depth_ok :: "nat \<Rightarrow> filesystem \<Rightarrow> path \<Rightarrow> bool" where
  "import_depth_ok 0 fs p =
     list_all (\<lambda>name. \<not> os_path_isdir fs (os_path_join p name)) (dir_entries fs p)"
| "import_depth_ok (Suc d) fs p =
     list_all (\<lambda>name. os_path_isdir fs (os_path_join p name)
                 \<longrightarrow> import_depth_ok d fs (os_path_join p name)) (dir_entries fs p)"

text \<open>
  Two file systems that agree on which paths are regular files, which are directories,
  and on sizes, listings and times, but not necessarily on the bytes of any file.
\<close>

definition node_shape :: "node option \<Rightarrow> (nat option) option" where
  "node_shape n =
     (case n of None \<Rightarrow> None | Some Directory \<Rightarrow> Some None
      | Some (RegularFile content) \<Rightarrow> Some (Some (length content)))"

definition same_shape :: "filesystem \<Rightarrow> filesystem \<Rightarrow> bool" where
  "same_shape fs fs' =
     ((\<forall>p. node_shape (nodes fs p) = node_shape (nodes fs' p))
      \<and> dir_entries fs = dir_entries fs' \<and> dir_st_size fs = dir_st_size fs'
      \<and> writable fs = writable fs' \<and> st_mtime fs = st_mtime fs')"

text \<open>
  A file record as the specification describes an imported one (4.7): it is marked
  imported; there is a regular file, at the path \<open>p\<close> the file system knows it by, whose
  absolute path (\<^verbatim>\<open>abspath\<close> of \<open>p\<close>, with no expansion of \<open>~\<close>) is the stored path and
  whose size and modification time are the recorded ones; and the adapter resolves
  the record to the stored path itself.
\<close>

definition imported_record :: "os_env \<Rightarrow> assetstore_doc \<Rightarrow> filesystem \<Rightarrow> file_doc \<Rightarrow> bool" where
  "imported_record env assetstore fs file =
     (file_imported file \<and> os_path_isabs (file_path file)
      \<and> fullPath assetstore file = file_path file
      \<and> (\<exists>p content. nodes fs p = Some (RegularFile content)
             \<and> file_path file = os_path_abspath env p
             \<and> file_size file = length content
             \<and> file_mtime file = st_mtime fs p))"

section \<open>Verification\<close>

subsection \<open>Streaming\<close>


lemma stream_loop_concat:
  "0 \<le> r \<Longrightarrow> pos = nat r \<Longrightarrow> e \<le> int (length content) \<Longrightarrow>
   concat (stream_loop content e r pos) = take (nat (e - r)) (drop (nat r) content)"
proof (induction content e r pos rule: stream_loop.induct)
  case (1 content e r pos)
  let ?n = "min (int BUF_SIZE) (e - r)"
  note r0 = \<open>0 \<le> r\<close> and p = \<open>pos = nat r\<close> and el = \<open>e \<le> int (length content)\<close>
  show ?case
  proof (cases "?n \<le> 0")
    case True
    then have "e - r \<le> 0" by (simp add: BUF_SIZE_def min_def split: if_splits)
    with True show ?thesis by (subst stream_loop.simps) simp
  next
    case False
    then have pos: "0 < ?n" by linarith
    have le: "nat r + nat ?n \<le> length content" using r0 el pos by linarith
    have len: "length (take (nat ?n) (drop pos content)) = nat ?n" using le p by simp
    have ne: "take (nat ?n) (drop pos content) \<noteq> []"
      using len pos by (metis length_0_conv nat_0_iff not_less)
    have nxt: "pos + nat ?n = nat (r + ?n)" using r0 p pos by linarith
    have r1: "0 \<le> r + ?n" using r0 pos by linarith
    have IH: "concat (stream_loop content e (r + ?n) (pos + nat ?n)) =
        take (nat (e - (r + ?n))) (drop (nat (r + ?n)) content)"
      using "1.IH"[OF False ne r1 _ el] len nxt by simp
    have "concat (stream_loop content e r pos) =
        take (nat ?n) (drop pos content) @ concat (stream_loop content e (r + ?n) (pos + nat ?n))"
      using False ne len by (subst stream_loop.simps) simp
    also have "\<dots> = take (nat ?n) (drop (nat r) content) @
        take (nat (e - (r + ?n))) (drop (nat ?n) (drop (nat r) content))"
      using IH nxt p by (simp add: add.commute)
    also have "\<dots> = take (nat ?n + nat (e - (r + ?n))) (drop (nat r) content)"
      by (simp add: take_add)
    also have "nat ?n + nat (e - (r + ?n)) = nat (e - r)" using pos by linarith
    finally show ?thesis .
  qed
qed

lemma stream_loop_bound:
  "c \<in> set (stream_loop content e r pos) \<Longrightarrow> length c \<le> BUF_SIZE \<and> c \<noteq> []"
proof (induction content e r pos rule: stream_loop.induct)
  case (1 content e r pos)
  let ?n = "min (int BUF_SIZE) (e - r)"
  show ?case
  proof (cases "?n \<le> 0 \<or> take (nat ?n) (drop pos content) = []")
    case True
    with 1(2) show ?thesis by (subst (asm) stream_loop.simps) (auto split: if_splits)
  next
    case False
    from 1(2) False have "c = take (nat ?n) (drop pos content) \<or>
       c \<in> set (stream_loop content e (r + ?n) (pos + length (take (nat ?n) (drop pos content))))"
      by (subst (asm) stream_loop.simps) (auto split: if_splits)
    then show ?thesis
    proof
      assume c: "c = take (nat ?n) (drop pos content)"
      have "length c \<le> nat ?n" unfolding c by simp
      then show ?thesis using False c by auto
    next
      assume "c \<in> set (stream_loop content e (r + ?n) (pos + length (take (nat ?n) (drop pos content))))"
      then show ?thesis using 1(1) False by blast
    qed
  qed
qed


text \<open>
  C4 (streaming range correctness). For a stored file whose backing bytes are intact
  (the record's size is the length of the content on disk), an offset \<open>a \<ge> 0\<close> and an
  end byte that is absent or given, with \<open>a\<close> at most the effective end \<open>b\<close> (the
  record's size when the end byte is absent or larger than it): \<^verbatim>\<open>downloadFile\<close>
  returns a generator, and iterating it yields non-empty chunks of at most \<open>BUF_SIZE\<close>
  bytes whose concatenation is exactly the \<open>b - a\<close> bytes of the content from position
  \<open>a\<close> to position \<open>b\<close>.
\<close>

theorem downloadFile_streams_range:
  assumes backing: "nodes fs (fullPath assetstore file) = Some (RegularFile content)"
    and intact: "file_size file = length content"
    and b: "b = (case endByte of None \<Rightarrow> int (file_size file)
                 | Some e \<Rightarrow> min e (int (file_size file)))"
    and a0: "0 \<le> a" and ab: "a \<le> b"
  shows "\<exists>gen chunks.
           downloadFile assetstore fs file a endByte = Inr gen
         \<and> gen fs = Inr chunks
         \<and> concat chunks = take (nat (b - a)) (drop (nat a) content)
         \<and> length (concat chunks) = nat (b - a)
         \<and> (\<forall>c \<in> set chunks. c \<noteq> [] \<and> length c \<le> BUF_SIZE)"
proof -
  let ?p = "fullPath assetstore file"
  have isf: "os_path_isfile fs ?p" using backing by (simp add: os_path_isfile_def)
  have bs: "b \<le> int (length content)" using b intact by (auto split: option.splits)
  have clamp: "(case endByte of None \<Rightarrow> int (file_size file)
        | Some e \<Rightarrow> if e > int (file_size file) then int (file_size file) else e) = b"
    using b by (auto split: option.splits)
  have dl: "downloadFile assetstore fs file a endByte = Inr (stream ?p a b)"
    using isf clamp by (simp add: downloadFile_def Let_def)
  let ?chunks = "stream_loop content b a (if a > 0 then nat a else 0)"
  have st: "stream ?p a b fs = Inr ?chunks"
    using backing by (simp add: stream_def)
  have pos: "(if a > 0 then nat a else 0) = nat a" using a0 by simp
  have cc: "concat ?chunks = take (nat (b - a)) (drop (nat a) content)"
    using stream_loop_concat[OF a0 pos bs] .
  have len: "length (concat ?chunks) = nat (b - a)"
    unfolding cc using a0 ab bs by simp
  have bound: "\<forall>c \<in> set ?chunks. c \<noteq> [] \<and> length c \<le> BUF_SIZE"
    using stream_loop_bound by blast
  show ?thesis using dl st cc len bound by blast
qed

theorem downloadFile_streams_range_witness:
  "\<exists>gen chunks.
     downloadFile \<lparr>assetstore_root = ''/r'', assetstore_id = 1\<rparr>
       \<lparr>nodes = [''/r/ab/cd/x'' \<mapsto> RegularFile [1, 2, 3]], dir_entries = (\<lambda>p. []),
        dir_st_size = (\<lambda>p. 0), writable = (\<lambda>p. True), st_mtime = (\<lambda>p. 0)\<rparr>
       \<lparr>file_name = ''x'', file_sha512 = ''abcd'', file_path = ''ab/cd/x'', file_size = 3,
        file_imported = False, file_mtime = 0, file_assetstoreId = 1\<rparr> 1 (Some 5) = Inr gen
   \<and> gen \<lparr>nodes = [''/r/ab/cd/x'' \<mapsto> RegularFile [1, 2, 3]], dir_entries = (\<lambda>p. []),
        dir_st_size = (\<lambda>p. 0), writable = (\<lambda>p. True), st_mtime = (\<lambda>p. 0)\<rparr> = Inr chunks
   \<and> concat chunks = [2, 3]"
  using downloadFile_streams_range[
    of "\<lparr>nodes = [''/r/ab/cd/x'' \<mapsto> RegularFile [1, 2, 3]], dir_entries = (\<lambda>p. []),
        dir_st_size = (\<lambda>p. 0), writable = (\<lambda>p. True), st_mtime = (\<lambda>p. 0)\<rparr>"
       "\<lparr>assetstore_root = ''/r'', assetstore_id = 1\<rparr>"
       "\<lparr>file_name = ''x'', file_sha512 = ''abcd'', file_path = ''ab/cd/x'', file_size = 3,
        file_imported = False, file_mtime = 0, file_assetstoreId = 1\<rparr>"
       "[1, 2, 3]" 3 "Some 5" 1]
  by (simp add: fullPath_def os_path_join_def) blast

subsection \<open>Appending chunks\<close>


lemma BUF_SIZE_pos: "0 < BUF_SIZE"
  by (simp add: BUF_SIZE_def)

lemma checksum_update_Nil: "checksum_update cs [] = cs"
  by (cases cs) simp

lemma checksum_update_append:
  "checksum_update (checksum_update cs a) b = checksum_update cs (a @ b)"
  by (cases cs) simp

lemma restore_serialize: "restoreHex (serializeHex cs) = cs"
  by (cases cs) simp

lemma take_BUF_Nil: "take BUF_SIZE xs = [] \<longleftrightarrow> xs = []"
  using BUF_SIZE_pos by (cases xs) auto

lemma take_drop_take_len: "take n xs @ drop (length (take n xs)) xs = xs"
  by (metis append_take_drop_id length_take min.commute take_all_iff linorder_le_cases min_def drop_all append_Nil2)

lemma catchup_loop_eq:
  "catchup_loop content pos cs = checksum_update cs (drop pos content)"
proof (induction content pos cs rule: catchup_loop.induct)
  case (1 content pos cs)
  let ?blk = "take BUF_SIZE (drop pos content)"
  show ?case
  proof (cases "?blk = []")
    case True
    then have "drop pos content = []" using BUF_SIZE_pos by simp
    with True show ?thesis
      by (subst catchup_loop.simps) (simp add: checksum_update_Nil)
  next
    case False
    have "catchup_loop content pos cs =
        catchup_loop content (pos + length ?blk) (checksum_update cs ?blk)"
      using False by (subst catchup_loop.simps) simp
    also have "\<dots> = checksum_update (checksum_update cs ?blk) (drop (pos + length ?blk) content)"
      using "1.IH"[OF False] .
    also have "\<dots> = checksum_update cs (?blk @ drop (length ?blk) (drop pos content))"
      by (simp add: checksum_update_append add.commute)
    also have "?blk @ drop (length ?blk) (drop pos content) = drop pos content"
      by (rule take_drop_take_len)
    finally show ?thesis .
  qed
qed

lemma write_loop_fits:
  "upload_received u + sz + length rest \<le> upload_size u \<Longrightarrow>
   write_loop u rest sz content cs = (sz + length rest, content @ rest, checksum_update cs rest)"
proof (induction u rest sz content cs rule: write_loop.induct)
  case (1 u rest sz content cs)
  let ?blk = "take BUF_SIZE rest"
  have le: "\<not> upload_received u + sz > upload_size u" using "1.prems" by simp
  show ?case
  proof (cases "?blk = []")
    case True
    then have "rest = []" using BUF_SIZE_pos by simp
    with le show ?thesis
      by (subst write_loop.simps) (simp add: checksum_update_Nil)
  next
    case False
    have fit: "upload_received u + (sz + length ?blk) + length (drop BUF_SIZE rest) \<le> upload_size u"
      using "1.prems" by simp
    have "write_loop u rest sz content cs =
        write_loop u (drop BUF_SIZE rest) (sz + length ?blk) (content @ ?blk) (checksum_update cs ?blk)"
      using False le by (subst write_loop.simps) simp
    also have "\<dots> = (sz + length ?blk + length (drop BUF_SIZE rest),
        (content @ ?blk) @ drop BUF_SIZE rest,
        checksum_update (checksum_update cs ?blk) (drop BUF_SIZE rest))"
      using "1.IH"[OF le False fit] .
    also have "\<dots> = (sz + length rest, content @ rest, checksum_update cs rest)"
      by (simp add: checksum_update_append)
    finally show ?thesis .
  qed
qed

lemma write_loop_prefix:
  "\<exists>k \<le> length rest.
     write_loop u rest sz content cs = (sz + k, content @ take k rest, checksum_update cs (take k rest))
     \<and> (k = length rest \<or> upload_received u + (sz + k) > upload_size u)"
proof (induction u rest sz content cs rule: write_loop.induct)
  case (1 u rest sz content cs)
  let ?blk = "take BUF_SIZE rest"
  show ?case
  proof (cases "upload_received u + sz > upload_size u")
    case True
    then have "write_loop u rest sz content cs = (sz, content, cs)"
      by (subst write_loop.simps) simp
    with True show ?thesis
      by (intro exI[of _ 0]) (simp add: checksum_update_Nil)
  next
    case le: False
    show ?thesis
    proof (cases "?blk = []")
      case True
      then have "rest = []" using BUF_SIZE_pos by simp
      with le show ?thesis
        by (subst write_loop.simps) (simp add: checksum_update_Nil)
    next
      case False
      from "1.IH"[OF le False] obtain k where k: "k \<le> length (drop BUF_SIZE rest)"
        and eq: "write_loop u (drop BUF_SIZE rest) (sz + length ?blk) (content @ ?blk) (checksum_update cs ?blk)
           = (sz + length ?blk + k, (content @ ?blk) @ take k (drop BUF_SIZE rest),
              checksum_update (checksum_update cs ?blk) (take k (drop BUF_SIZE rest)))"
        and fin: "k = length (drop BUF_SIZE rest) \<or> upload_received u + (sz + length ?blk + k) > upload_size u"
        by blast
      have step: "write_loop u rest sz content cs =
          write_loop u (drop BUF_SIZE rest) (sz + length ?blk) (content @ ?blk) (checksum_update cs ?blk)"
        using False le by (subst write_loop.simps) simp
      have tk: "?blk @ take k (drop BUF_SIZE rest) = take (length ?blk + k) rest"
      proof (cases "BUF_SIZE \<le> length rest")
        case True
        then show ?thesis by (simp add: take_add min_def)
      next
        case False
        then show ?thesis using k by simp
      qed
      show ?thesis
      proof (intro exI[of _ "length ?blk + k"] conjI)
        show "length ?blk + k \<le> length rest" using k by auto
        show "write_loop u rest sz content cs =
          (sz + (length ?blk + k), content @ take (length ?blk + k) rest,
           checksum_update cs (take (length ?blk + k) rest))"
          unfolding step eq by (simp add: checksum_update_append tk add.assoc)
        show "length ?blk + k = length rest \<or> upload_size u < upload_received u + (sz + (length ?blk + k))"
          using fin k by (auto simp: add.assoc)
      qed
    qed
  qed
qed



lemma utf8_char_length: "utf8_char c = Some bs \<Longrightarrow> 1 \<le> length bs"
  by (auto simp: utf8_char_def split: if_splits)

lemma encode_utf8_length: "encode_utf8 t = Some b \<Longrightarrow> length t \<le> length b"
proof (induction t arbitrary: b)
  case Nil
  then show ?case by simp
next
  case (Cons c cs)
  then obtain bs rest where c: "utf8_char c = Some bs" and r: "encode_utf8 cs = Some rest"
    and b: "b = bs @ rest"
    by (auto split: option.splits)
  from Cons.IH[OF r] utf8_char_length[OF c] b show ?case by simp
qed

lemma getChunkSize_le: "chunk_bytes chunk = Some bytes \<Longrightarrow> getChunkSize chunk \<le> length bytes"
  by (cases chunk) (auto dest: encode_utf8_length)

lemma uploadChunk_accepts:
  assumes tmp: "nodes fs (upload_tempFile u) = Some (RegularFile content)"
    and bytes: "chunk_bytes chunk = Some bytes"
    and fits: "upload_received u + length bytes \<le> upload_size u"
  shows "uploadChunk fs u chunk =
    (write_file fs (upload_tempFile u) (content @ bytes),
     Inr (u\<lparr>upload_sha512state := serializeHex (checksum_update
              (if length content > upload_received u
               then catchup_loop content (upload_received u) (restoreHex (upload_sha512state u))
               else restoreHex (upload_sha512state u)) bytes),
            upload_received := upload_received u + length bytes\<rparr>))"
proof -
  have pre: "checkUploadSize u (getChunkSize chunk) = None"
    using getChunkSize_le[OF bytes] fits by (simp add: checkUploadSize_def)
  have off: "requestOffset fs u = Inr (length content)"
    using tmp by (simp add: requestOffset_def os_stat_size_def)
  have wl: "write_loop u bytes 0 content cs = (length bytes, content @ bytes, checksum_update cs bytes)" for cs
    using write_loop_fits[of u 0 bytes content cs] fits by simp
  have post: "checkUploadSize u (length bytes) = None"
    using fits by (simp add: checkUploadSize_def)
  show ?thesis
    unfolding uploadChunk_def by (simp add: pre bytes off tmp wl post Let_def)
qed

lemma write_file_twice: "write_file (write_file fs p a) p b = write_file fs p b"
  by (simp add: write_file_def)

lemma truncate_prefix: "n \<le> length content \<Longrightarrow> file_truncate (content @ extra) n = take n content"
  by (simp add: file_truncate_def)

lemma uploadChunk_rejects:
  assumes tmp: "nodes fs (upload_tempFile u) = Some (RegularFile content)"
    and bytes: "chunk_bytes chunk = Some bytes"
    and over: "upload_received u + length bytes > upload_size u"
    and acc: "upload_received u \<le> length content"
  shows "uploadChunk fs u chunk =
    ((if upload_received u + getChunkSize chunk > upload_size u then fs
      else write_file fs (upload_tempFile u) (take (upload_received u) content)),
     Inl (ValidationException ''SizeExceeded''))"
proof (cases "upload_received u + getChunkSize chunk > upload_size u")
  case True
  then show ?thesis by (simp add: uploadChunk_def checkUploadSize_def)
next
  case False
  then have pre: "checkUploadSize u (getChunkSize chunk) = None"
    by (simp add: checkUploadSize_def)
  have off: "requestOffset fs u = Inr (length content)"
    using tmp by (simp add: requestOffset_def os_stat_size_def)
  define cs where "cs = (if length content > upload_received u
               then catchup_loop content (upload_received u) (restoreHex (upload_sha512state u))
               else restoreHex (upload_sha512state u))"
  obtain k where k: "k \<le> length bytes"
    and wl: "write_loop u bytes 0 content cs = (0 + k, content @ take k bytes, checksum_update cs (take k bytes))"
    and fin: "k = length bytes \<or> upload_received u + (0 + k) > upload_size u"
    using write_loop_prefix[of bytes u 0 content cs] by blast
  have post: "checkUploadSize u k = Some (ValidationException ''SizeExceeded'')"
    using fin over by (auto simp: checkUploadSize_def)
  show ?thesis
    using False wl unfolding uploadChunk_def cs_def
    by (simp add: pre bytes off tmp post Let_def write_file_twice truncate_prefix[OF acc])
qed





lemma uploadChunk_catch_up_once:
  assumes tmp: "nodes fs (upload_tempFile upload) = Some (RegularFile content)"
    and crash: "upload_received upload < length content"
    and state: "restoreHex (upload_sha512state upload)
                  = checksum_update sha512_new (take (upload_received upload) content)"
    and bytes: "chunk_bytes chunk = Some bytes"
    and fits: "upload_received upload + length bytes \<le> upload_size upload"
  shows "catchup_loop content (upload_received upload) (restoreHex (upload_sha512state upload))
           = checksum_update (restoreHex (upload_sha512state upload))
               (drop (upload_received upload) content)
       \<and> (\<exists>upload'.
             uploadChunk fs upload chunk
               = (write_file fs (upload_tempFile upload) (content @ bytes), Inr upload')
           \<and> restoreHex (upload_sha512state upload') = checksum_update sha512_new (content @ bytes)
           \<and> (\<forall>sha512. hexdigest sha512 (restoreHex (upload_sha512state upload'))
                         = hexdigest sha512 (checksum_update sha512_new (content @ bytes)))
           \<and> upload_received upload' = upload_received upload + length bytes)"
proof -
  let ?r = "upload_received upload"
  let ?cs = "restoreHex (upload_sha512state upload)"
  have gap: "catchup_loop content ?r ?cs = checksum_update ?cs (drop ?r content)"
    by (rule catchup_loop_eq)
  have whole: "checksum_update (catchup_loop content ?r ?cs) bytes
      = checksum_update sha512_new (content @ bytes)"
    by (simp add: catchup_loop_eq state checksum_update_append)
  let ?u = "upload\<lparr>upload_sha512state := serializeHex (checksum_update sha512_new (content @ bytes)),
                     upload_received := ?r + length bytes\<rparr>"
  have res: "uploadChunk fs upload chunk
      = (write_file fs (upload_tempFile upload) (content @ bytes), Inr ?u)"
    using uploadChunk_accepts[OF tmp bytes fits] crash whole by simp
  have st: "restoreHex (upload_sha512state ?u) = checksum_update sha512_new (content @ bytes)"
    by (simp add: restore_serialize)
  have rc: "upload_received ?u = ?r + length bytes" by simp
  from res st rc have "\<exists>upload'.
             uploadChunk fs upload chunk
               = (write_file fs (upload_tempFile upload) (content @ bytes), Inr upload')
           \<and> restoreHex (upload_sha512state upload') = checksum_update sha512_new (content @ bytes)
           \<and> (\<forall>sha512. hexdigest sha512 (restoreHex (upload_sha512state upload'))
                         = hexdigest sha512 (checksum_update sha512_new (content @ bytes)))
           \<and> upload_received upload' = upload_received upload + length bytes"
    by (intro exI[of _ ?u]) simp
  with gap show ?thesis by blast
qed

text \<open>
  C2 (crash catch-up). The catch-up loop feeds the checksum the bytes of the gap, and the
  call that follows a crash stores the checksum state of the whole file. But \<open>received\<close>
  then grows by the length of the chunk only: the gap between \<open>received\<close> and the size of
  the file stays open, and the next call digests the bytes above \<open>received\<close> once more.
  The temporary file holds \<open>[1, 2, 3]\<close> with \<open>received = 1\<close> and the checksum state of
  \<open>[1]\<close>, as a crash leaves it; the declared size is 5. Appending \<open>[4]\<close> and then \<open>[5]\<close>
  succeeds twice and leaves the file \<open>[1, 2, 3, 4, 5]\<close> with \<open>received = 3\<close> and the
  checksum state of \<open>[1, 2, 3, 4, 3, 4, 5]\<close>: the final digest is that of seven bytes,
  not that of the five bytes of the file, which a run without a crash computes.
\<close>

theorem uploadChunk_catch_up_redigests:
  "\<exists>fs1 upload1 fs2 upload2.
     uploadChunk
       \<lparr>nodes = [''/r/temp/t'' \<mapsto> RegularFile [1, 2, 3]], dir_entries = (\<lambda>p. []),
        dir_st_size = (\<lambda>p. 0), writable = (\<lambda>p. True), st_mtime = (\<lambda>p. 0)\<rparr>
       \<lparr>upload_tempFile = ''/r/temp/t'', upload_sha512state = HexState [1],
        upload_received = 1, upload_size = 5\<rparr> (ByteChunk [4]) = (fs1, Inr upload1)
   \<and> nodes fs1 ''/r/temp/t'' = Some (RegularFile [1, 2, 3, 4])
   \<and> restoreHex (upload_sha512state upload1) = Checksum [1, 2, 3, 4]
   \<and> upload_received upload1 = 2
   \<and> uploadChunk fs1 upload1 (ByteChunk [5]) = (fs2, Inr upload2)
   \<and> nodes fs2 ''/r/temp/t'' = Some (RegularFile [1, 2, 3, 4, 5])
   \<and> restoreHex (upload_sha512state upload2) = Checksum [1, 2, 3, 4, 3, 4, 5]
   \<and> (\<forall>sha512. hexdigest sha512 (restoreHex (upload_sha512state upload2))
                  = hex_of_digest (sha512 [1, 2, 3, 4, 3, 4, 5]))
   \<and> upload_received upload2 = 3
   \<and> checksum_update sha512_new [1, 2, 3, 4, 5] = Checksum [1, 2, 3, 4, 5]"
proof -
  let ?FS = "\<lparr>nodes = [''/r/temp/t'' \<mapsto> RegularFile [1, 2, 3]], dir_entries = (\<lambda>p. []),
        dir_st_size = (\<lambda>p. 0), writable = (\<lambda>p. True), st_mtime = (\<lambda>p. 0)\<rparr>"
  let ?U = "\<lparr>upload_tempFile = ''/r/temp/t'', upload_sha512state = HexState [1],
        upload_received = 1, upload_size = 5\<rparr>"
  let ?fs1 = "write_file ?FS ''/r/temp/t'' [1, 2, 3, 4]"
  let ?u1 = "?U\<lparr>upload_sha512state := serializeHex (Checksum [1, 2, 3, 4]), upload_received := 2\<rparr>"
  let ?fs2 = "write_file ?fs1 ''/r/temp/t'' [1, 2, 3, 4, 5]"
  let ?u2 = "?u1\<lparr>upload_sha512state := serializeHex (Checksum [1, 2, 3, 4, 3, 4, 5]),
                  upload_received := 3\<rparr>"
  have t0: "nodes ?FS (upload_tempFile ?U) = Some (RegularFile [1, 2, 3])" by simp
  have b4: "chunk_bytes (ByteChunk [4]) = Some [4]" by simp
  have f0: "upload_received ?U + length [4 :: byte] \<le> upload_size ?U" by simp
  have s1: "uploadChunk ?FS ?U (ByteChunk [4]) = (?fs1, Inr ?u1)"
    unfolding uploadChunk_accepts[OF t0 b4 f0]
    by (simp add: catchup_loop_eq numeral_2_eq_2)
  have t1: "nodes ?fs1 (upload_tempFile ?u1) = Some (RegularFile [1, 2, 3, 4])"
    by (simp add: write_file_def)
  have b5: "chunk_bytes (ByteChunk [5]) = Some [5]" by simp
  have f1: "upload_received ?u1 + length [5 :: byte] \<le> upload_size ?u1" by simp
  have s2: "uploadChunk ?fs1 ?u1 (ByteChunk [5]) = (?fs2, Inr ?u2)"
    unfolding uploadChunk_accepts[OF t1 b5 f1]
    by (simp add: catchup_loop_eq restore_serialize numeral_3_eq_3)
  have n1: "nodes ?fs1 ''/r/temp/t'' = Some (RegularFile [1, 2, 3, 4])"
    by (simp add: write_file_def)
  have n2: "nodes ?fs2 ''/r/temp/t'' = Some (RegularFile [1, 2, 3, 4, 5])"
    by (simp add: write_file_def)
  have c1: "restoreHex (upload_sha512state ?u1) = Checksum [1, 2, 3, 4]"
    by (simp add: restore_serialize)
  have c2: "restoreHex (upload_sha512state ?u2) = Checksum [1, 2, 3, 4, 3, 4, 5]"
    by (simp add: restore_serialize)
  have d2: "\<forall>sha512. hexdigest sha512 (restoreHex (upload_sha512state ?u2))
                  = hex_of_digest (sha512 [1, 2, 3, 4, 3, 4, 5])"
    unfolding c2 by simp
  have r1: "upload_received ?u1 = 2" and r2: "upload_received ?u2 = 3" by simp_all
  have whole: "checksum_update sha512_new [1, 2, 3, 4, 5] = Checksum [1, 2, 3, 4, 5]"
    by (simp add: sha512_new_def)
  from s1 n1 c1 r1 s2 n2 c2 d2 r2 whole show ?thesis
    by (intro exI[of _ ?fs1] exI[of _ ?u1] exI[of _ ?fs2] exI[of _ ?u2] conjI)
qed

text \<open>
  C3 (size-exceeded atomicity). The temporary file holds at least the
  \<open>received\<close> bytes accepted so far, and the chunk's bytes would push \<open>received\<close> over
  the declared size. Then \<^verbatim>\<open>uploadChunk\<close> raises the size-exceeded error; the upload
  document is not assigned to (an error result carries no new document), so \<open>received\<close>
  and the checksum state stay as they were; no other path changes. When the first
  check, on the length of the chunk as given, detects the excess, nothing is written
  and the temporary file is left as it was; otherwise the file is truncated to exactly
  its first \<open>received\<close> bytes. In particular a file that held exactly \<open>received\<close> bytes
  holds exactly those bytes afterwards.
\<close>

theorem uploadChunk_size_exceeded:
  assumes tmp: "nodes fs (upload_tempFile upload) = Some (RegularFile content)"
    and bytes: "chunk_bytes chunk = Some bytes"
    and over: "upload_received upload + length bytes > upload_size upload"
    and acc: "upload_received upload \<le> length content"
  shows "\<exists>fs'.
           uploadChunk fs upload chunk = (fs', Inl (ValidationException ''SizeExceeded''))
         \<and> (\<forall>p. p \<noteq> upload_tempFile upload \<longrightarrow> nodes fs' p = nodes fs p)
         \<and> nodes fs' (upload_tempFile upload)
             = Some (RegularFile
                 (if upload_received upload + getChunkSize chunk > upload_size upload
                  then content else take (upload_received upload) content))
         \<and> (length content = upload_received upload
              \<longrightarrow> nodes fs' (upload_tempFile upload) = Some (RegularFile content))"
proof -
  let ?fs' = "if upload_received upload + getChunkSize chunk > upload_size upload then fs
      else write_file fs (upload_tempFile upload) (take (upload_received upload) content)"
  have res: "uploadChunk fs upload chunk = (?fs', Inl (ValidationException ''SizeExceeded''))"
    using uploadChunk_rejects[OF tmp bytes over acc] .
  have other: "\<forall>p. p \<noteq> upload_tempFile upload \<longrightarrow> nodes ?fs' p = nodes fs p"
    by (simp add: write_file_def)
  have this_one: "nodes ?fs' (upload_tempFile upload)
             = Some (RegularFile
                 (if upload_received upload + getChunkSize chunk > upload_size upload
                  then content else take (upload_received upload) content))"
    using tmp by (simp add: write_file_def)
  have normal: "length content = upload_received upload
              \<longrightarrow> nodes ?fs' (upload_tempFile upload) = Some (RegularFile content)"
    using tmp by (simp add: write_file_def)
  from res other this_one normal show ?thesis by blast
qed

theorem uploadChunk_size_exceeded_witness:
  "\<exists>fs'. uploadChunk 
       \<lparr>nodes = [''/r/temp/t'' \<mapsto> RegularFile [1]], dir_entries = (\<lambda>p. []),
        dir_st_size = (\<lambda>p. 0), writable = (\<lambda>p. True), st_mtime = (\<lambda>p. 0)\<rparr> 
       \<lparr>upload_tempFile = ''/r/temp/t'', upload_sha512state = HexState [1],
        upload_received = 1, upload_size = 2\<rparr> (TextChunk [233])
            = (fs', Inl (ValidationException ''SizeExceeded''))
        \<and> nodes fs' ''/r/temp/t'' = Some (RegularFile [1])"
  using uploadChunk_size_exceeded[of "\<lparr>nodes = [''/r/temp/t'' \<mapsto> RegularFile [1]], dir_entries = (\<lambda>p. []),
        dir_st_size = (\<lambda>p. 0), writable = (\<lambda>p. True), st_mtime = (\<lambda>p. 0)\<rparr>" "\<lparr>upload_tempFile = ''/r/temp/t'', upload_sha512state = HexState [1],
        upload_received = 1, upload_size = 2\<rparr>" "[1]" "TextChunk [233]" "[195, 169]"]
  by (simp add: utf8_char_def) blast

text \<open>
  The temporary file is not always cut back to \<open>received\<close> bytes. With three bytes on
  disk and one received, as after a crash, a text chunk of two characters that does not
  fit the declared size of two is rejected by the first check, and the three bytes stay.
\<close>

theorem uploadChunk_size_exceeded_counterexample:
  "encode_utf8 [97, 98] = Some [97, 98]
   \<and> upload_received 
       \<lparr>upload_tempFile = ''/r/temp/t'', upload_sha512state = HexState [1],
        upload_received = 1, upload_size = 2\<rparr> + length [97, 98 :: byte] > upload_size 
       \<lparr>upload_tempFile = ''/r/temp/t'', upload_sha512state = HexState [1],
        upload_received = 1, upload_size = 2\<rparr>
   \<and> uploadChunk 
       \<lparr>nodes = [''/r/temp/t'' \<mapsto> RegularFile [1, 2, 3]], dir_entries = (\<lambda>p. []),
        dir_st_size = (\<lambda>p. 0), writable = (\<lambda>p. True), st_mtime = (\<lambda>p. 0)\<rparr> 
       \<lparr>upload_tempFile = ''/r/temp/t'', upload_sha512state = HexState [1],
        upload_received = 1, upload_size = 2\<rparr> (TextChunk [97, 98])
       = (
       \<lparr>nodes = [''/r/temp/t'' \<mapsto> RegularFile [1, 2, 3]], dir_entries = (\<lambda>p. []),
        dir_st_size = (\<lambda>p. 0), writable = (\<lambda>p. True), st_mtime = (\<lambda>p. 0)\<rparr>, Inl (ValidationException ''SizeExceeded''))
   \<and> nodes 
       \<lparr>nodes = [''/r/temp/t'' \<mapsto> RegularFile [1, 2, 3]], dir_entries = (\<lambda>p. []),
        dir_st_size = (\<lambda>p. 0), writable = (\<lambda>p. True), st_mtime = (\<lambda>p. 0)\<rparr> ''/r/temp/t'' = Some (RegularFile [1, 2, 3])
   \<and> length [1, 2, 3 :: byte] \<noteq> upload_received 
       \<lparr>upload_tempFile = ''/r/temp/t'', upload_sha512state = HexState [1],
        upload_received = 1, upload_size = 2\<rparr>"
  by (simp add: uploadChunk_def checkUploadSize_def utf8_char_def)




subsection \<open>Cancelling an upload\<close>

text \<open>
  C9 (cancel idempotence). When the temporary path of the session is not a directory,
  \<^verbatim>\<open>cancelUpload\<close> succeeds whether or not the temporary file exists; afterwards the
  file is absent and every other path is as before; and a second \<^verbatim>\<open>cancelUpload\<close>
  succeeds as well and leaves the file system as the first one left it.
\<close>

theorem cancelUpload_idempotent:
  assumes nodir: "nodes fs (upload_tempFile upload) \<noteq> Some Directory"
  shows "\<exists>fs'. cancelUpload fs upload = (fs', Inr ())
              \<and> nodes fs' (upload_tempFile upload) = None
              \<and> (\<forall>p. p \<noteq> upload_tempFile upload \<longrightarrow> nodes fs' p = nodes fs p)
              \<and> cancelUpload fs' upload = (fs', Inr ())"
proof (cases "nodes fs (upload_tempFile upload)")
  case None
  then show ?thesis by (simp add: cancelUpload_def os_path_exists_def)
next
  case (Some n)
  with nodir obtain content where c: "nodes fs (upload_tempFile upload) = Some (RegularFile content)"
    by (cases n) auto
  then show ?thesis by (simp add: cancelUpload_def os_path_exists_def os_remove_def)
qed

theorem cancelUpload_idempotent_witness:
  "\<exists>fs'. cancelUpload 
       \<lparr>nodes = [''/r/temp/t'' \<mapsto> RegularFile [1]], dir_entries = (\<lambda>p. []),
        dir_st_size = (\<lambda>p. 0), writable = (\<lambda>p. True), st_mtime = (\<lambda>p. 0)\<rparr> 
       \<lparr>upload_tempFile = ''/r/temp/t'', upload_sha512state = HexState [1],
        upload_received = 1, upload_size = 3\<rparr> = (fs', Inr ())
        \<and> nodes fs' ''/r/temp/t'' = None
        \<and> cancelUpload fs' 
       \<lparr>upload_tempFile = ''/r/temp/t'', upload_sha512state = HexState [1],
        upload_received = 1, upload_size = 3\<rparr> = (fs', Inr ())"
  using cancelUpload_idempotent[of "\<lparr>nodes = [''/r/temp/t'' \<mapsto> RegularFile [1]], dir_entries = (\<lambda>p. []),
        dir_st_size = (\<lambda>p. 0), writable = (\<lambda>p. True), st_mtime = (\<lambda>p. 0)\<rparr>" "\<lparr>upload_tempFile = ''/r/temp/t'', upload_sha512state = HexState [1],
        upload_received = 1, upload_size = 3\<rparr>"]
  by simp blast

subsection \<open>Publishing an upload\<close>

lemma hex_char_not_slash: "hex_char n \<noteq> CHR ''/''"
proof -
  have "n mod 16 < length ''0123456789abcdef''" by simp
  then have "hex_char n \<in> set ''0123456789abcdef''"
    unfolding hex_char_def by (rule nth_mem)
  then show ?thesis by auto
qed

lemma length_hex_of_digest: "length (hex_of_digest w) = 128"
  by (simp add: hex_of_digest_def)

lemma hex_of_digest_no_slash: "CHR ''/'' \<notin> set (hex_of_digest w)"
proof
  assume "CHR ''/'' \<in> set (hex_of_digest w)"
  then obtain i where "CHR ''/'' = hex_char (unat w div 16 ^ (127 - i))"
    by (auto simp: hex_of_digest_def)
  with hex_char_not_slash[of "unat w div 16 ^ (127 - i)"] show False by simp
qed

lemma join_plain:
  "a \<noteq> [] \<Longrightarrow> last a \<noteq> CHR ''/'' \<Longrightarrow> b \<noteq> [] \<Longrightarrow> hd b \<noteq> CHR ''/'' \<Longrightarrow>
   os_path_join a b = a @ ''/'' @ b"
  by (simp add: os_path_join_def)

lemma dirname_of_join:
  assumes X: "X \<noteq> []" and lastX: "last X \<noteq> CHR ''/''" and h: "CHR ''/'' \<notin> set h"
  shows "os_path_dirname (X @ ''/'' @ h) = X"
proof -
  have r: "rev (X @ ''/'' @ h) = rev h @ CHR ''/'' # rev X" by simp
  have "dropWhile (\<lambda>c. c \<noteq> CHR ''/'') (rev h @ CHR ''/'' # rev X) = CHR ''/'' # rev X"
  proof -
    have "\<And>x. x \<in> set (rev h) \<Longrightarrow> x \<noteq> CHR ''/''" using h by auto
    then have "dropWhile (\<lambda>c. c \<noteq> CHR ''/'') (rev h @ CHR ''/'' # rev X)
        = dropWhile (\<lambda>c. c \<noteq> CHR ''/'') (CHR ''/'' # rev X)"
      by (rule dropWhile_append2)
    then show ?thesis by simp
  qed
  then have head: "rev (dropWhile (\<lambda>c. c \<noteq> CHR ''/'') (rev (X @ ''/'' @ h))) = X @ ''/''"
    unfolding r by simp
  obtain ys y where Xs: "X = ys @ [y]" using X by (cases X rule: rev_cases) auto
  have y: "y \<noteq> CHR ''/''" using lastX Xs by simp
  have notall: "\<not> list_all (\<lambda>c. c = CHR ''/'') (X @ ''/'')"
    using y Xs by simp
  have strip: "rstrip_slash (X @ ''/'') = X"
    using y Xs by (simp add: rstrip_slash_def)
  show ?thesis
    unfolding os_path_dirname_def head Let_def using notall strip by simp
qed


lemma no_slash_member:
  "x \<in> set xs \<Longrightarrow> set xs \<subseteq> set ys \<Longrightarrow> CHR ''/'' \<notin> set ys \<Longrightarrow> x \<noteq> CHR ''/''"
  by auto

lemma root_join:
  "x \<noteq> [] \<Longrightarrow> hd x \<noteq> CHR ''/'' \<Longrightarrow>
   os_path_join root x = (if root = [] \<or> last root = CHR ''/'' then root else root @ ''/'') @ x"
  by (simp add: os_path_join_def)

lemma shard_paths:
  assumes len: "4 \<le> length h" and ns: "CHR ''/'' \<notin> set h"
  shows "os_path_join (os_path_join (take 2 h) (take 2 (drop 2 h))) h = spec_shard_path h"
    and "os_path_join root (spec_shard_path h)
           = os_path_join root (os_path_join (take 2 h) (take 2 (drop 2 h))) @ ''/'' @ h"
    and "os_path_join root (os_path_join (take 2 h) (take 2 (drop 2 h))) \<noteq> []"
    and "last (os_path_join root (os_path_join (take 2 h) (take 2 (drop 2 h)))) \<noteq> CHR ''/''"
proof -
  let ?a = "take 2 h" and ?b = "take 2 (drop 2 h)"
  have a: "?a \<noteq> []" and b: "?b \<noteq> []" and h: "h \<noteq> []" using len by auto
  have ina: "set ?a \<subseteq> set h" by (rule set_take_subset)
  have inb: "set ?b \<subseteq> set h"
    using set_take_subset[of 2 "drop 2 h"] set_drop_subset[of 2 h] by blast
  have la: "last ?a \<noteq> CHR ''/''" by (rule no_slash_member[OF last_in_set[OF a] ina ns])
  have lb: "last ?b \<noteq> CHR ''/''" by (rule no_slash_member[OF last_in_set[OF b] inb ns])
  have ha: "hd ?a \<noteq> CHR ''/''" by (rule no_slash_member[OF hd_in_set[OF a] ina ns])
  have hb: "hd ?b \<noteq> CHR ''/''" by (rule no_slash_member[OF hd_in_set[OF b] inb ns])
  have hh: "hd h \<noteq> CHR ''/''" by (rule no_slash_member[OF hd_in_set[OF h] subset_refl ns])
  have dir: "os_path_join ?a ?b = ?a @ ''/'' @ ?b"
    using a la b hb by (rule join_plain)
  have dne: "?a @ ''/'' @ ?b \<noteq> []" using a by simp
  have dl: "last (?a @ ''/'' @ ?b) \<noteq> CHR ''/''" using b lb by simp
  have dh: "hd (?a @ ''/'' @ ?b) \<noteq> CHR ''/''" using a ha by simp
  show p1: "os_path_join (os_path_join ?a ?b) h = spec_shard_path h"
    unfolding dir using join_plain[OF dne dl h hh] by (simp add: spec_shard_path_def)
  have sh: "spec_shard_path h \<noteq> []" "hd (spec_shard_path h) \<noteq> CHR ''/''"
    using a ha by (simp_all add: spec_shard_path_def)
  show "os_path_join root (spec_shard_path h) = os_path_join root (os_path_join ?a ?b) @ ''/'' @ h"
    unfolding dir root_join[OF sh] root_join[OF dne dh] by (simp add: spec_shard_path_def)
  show "os_path_join root (os_path_join ?a ?b) \<noteq> []"
    unfolding dir root_join[OF dne dh] using a by simp
  show "last (os_path_join root (os_path_join ?a ?b)) \<noteq> CHR ''/''"
    unfolding dir root_join[OF dne dh] using dne dl by simp
qed

lemma ancestors_shorter: "a \<in> set (ancestors p) \<Longrightarrow> length a < length p"
  by (auto simp: ancestors_def split: if_splits)

lemma os_makedirs_creates:
  assumes "p \<noteq> []" and "nodes fs p = None" and "\<not> list_ex (os_path_isfile fs) (ancestors p)"
    and "mkdir_allowed fs p"
  shows "os_makedirs fs p =
    (fs\<lparr>nodes := (\<lambda>q. if q = p \<or> q \<in> set (ancestors p) then Some Directory else nodes fs q)\<rparr>,
     Inr ())"
  using assms by (simp add: os_makedirs_def os_path_exists_def)

lemma publish_step:
  assumes dir: "nodes fs absdir = Some Directory"
    and tmp: "nodes fs tmp = Some (RegularFile c)"
    and neq: "tmp \<noteq> abspath"
    and nodir: "nodes fs abspath \<noteq> Some Directory"
    and dn: "os_path_dirname abspath = absdir"
  shows "(if os_path_exists fs abspath then os_remove fs tmp else shutil_move fs tmp abspath)
     = (fs\<lparr>nodes := (nodes fs)(tmp := None, abspath := Some (RegularFile
            (case nodes fs abspath of Some (RegularFile x) \<Rightarrow> x | _ \<Rightarrow> c)))\<rparr>, Inr ())"
proof (cases "nodes fs abspath")
  case None
  then show ?thesis
    using dir tmp dn by (simp add: os_path_exists_def shutil_move_def os_path_isdir_def)
next
  case (Some n)
  with nodir obtain x where x: "nodes fs abspath = Some (RegularFile x)" by (cases n) auto
  have "(nodes fs)(tmp := None) = (nodes fs)(tmp := None, abspath := Some (RegularFile x))"
    using x neq by (auto simp: fun_eq_iff)
  then show ?thesis
    using x tmp by (simp add: os_path_exists_def os_remove_def)
qed

lemma finalizeUpload_publishes:
  assumes hash: "hash = hexdigest sha512 (restoreHex (upload_sha512state upload))"
    and absdir: "absdir = os_path_join (assetstore_root assetstore)
                            (os_path_join (take 2 hash) (take 2 (drop 2 hash)))"
    and abspath: "abspath = os_path_join (assetstore_root assetstore) (spec_shard_path hash)"
    and tmp: "nodes fs (upload_tempFile upload) = Some (RegularFile c)"
    and neq: "upload_tempFile upload \<noteq> abspath"
    and h3: "\<not> os_path_isfile fs absdir"
    and h4: "\<not> list_ex (os_path_isfile fs) (ancestors absdir)"
    and h5: "nodes fs abspath \<noteq> Some Directory"
    and h6: "os_path_exists fs absdir \<or> mkdir_allowed fs absdir"
  shows "\<exists>fs'. finalizeUpload sha512 assetstore fs upload file
                 = (fs', Inr (file\<lparr>file_sha512 := hash, file_path := spec_shard_path hash\<rparr>))
            \<and> nodes fs' (upload_tempFile upload) = None
            \<and> nodes fs' absdir = Some Directory
            \<and> nodes fs' abspath = Some (RegularFile
                 (case nodes fs abspath of Some (RegularFile x) \<Rightarrow> x | _ \<Rightarrow> c))
            \<and> (\<forall>q x. q \<noteq> upload_tempFile upload \<longrightarrow> nodes fs q = Some (RegularFile x)
                  \<longrightarrow> nodes fs' q = Some (RegularFile x))"
proof -
  let ?tmp = "upload_tempFile upload"
  obtain w where hw: "hash = hex_of_digest w"
    unfolding hash by (cases "restoreHex (upload_sha512state upload)") simp
  have len: "4 \<le> length hash" and ns: "CHR ''/'' \<notin> set hash"
    unfolding hw by (simp_all add: length_hex_of_digest hex_of_digest_no_slash)
  note sp = shard_paths[OF len ns]
  have pth: "os_path_join (os_path_join (take 2 hash) (take 2 (drop 2 hash))) hash = spec_shard_path hash"
    by (rule sp(1))
  have ap: "abspath = absdir @ ''/'' @ hash" unfolding abspath absdir by (rule sp(2))
  have dne: "absdir \<noteq> []" and dl: "last absdir \<noteq> CHR ''/''"
    unfolding absdir using sp(3,4) by auto
  have dn: "os_path_dirname abspath = absdir"
    unfolding ap using dne dl ns by (rule dirname_of_join)
  have longer: "length absdir < length abspath" unfolding ap by simp
  have ne: "abspath \<noteq> absdir" using longer by auto
  have nanc: "abspath \<notin> set (ancestors absdir)"
    using ancestors_shorter[of abspath absdir] longer by auto
  have tne: "?tmp \<noteq> absdir" using tmp h3 by (auto simp: os_path_isfile_def)
  have tanc: "?tmp \<notin> set (ancestors absdir)"
    using tmp h4 by (auto simp: list_ex_iff os_path_isfile_def)
  define fs1 where "fs1 = (if os_path_exists fs absdir then fs
      else fs\<lparr>nodes := (\<lambda>q. if q = absdir \<or> q \<in> set (ancestors absdir) then Some Directory else nodes fs q)\<rparr>)"
  have mk: "(if \<not> os_path_exists fs absdir then os_makedirs fs absdir else (fs, Inr ())) = (fs1, Inr ())"
    unfolding fs1_def using os_makedirs_creates[OF dne _ h4] h6 by (auto simp: os_path_exists_def)
  have d1: "nodes fs1 absdir = Some Directory"
  proof (cases "os_path_exists fs absdir")
    case True
    then obtain n where n: "nodes fs absdir = Some n" by (auto simp: os_path_exists_def)
    with h3 have "n = Directory" by (cases n) (auto simp: os_path_isfile_def)
    with n True show ?thesis by (simp add: fs1_def)
  next
    case False
    then show ?thesis by (simp add: fs1_def)
  qed
  have keep: "nodes fs1 q = Some (RegularFile x)" if "nodes fs q = Some (RegularFile x)" for q x
  proof -
    have "q \<noteq> absdir" using that h3 by (auto simp: os_path_isfile_def)
    moreover have "q \<notin> set (ancestors absdir)"
      using that h4 by (auto simp: list_ex_iff os_path_isfile_def)
    ultimately show ?thesis using that by (simp add: fs1_def)
  qed
  have t1: "nodes fs1 ?tmp = Some (RegularFile c)" using keep[OF tmp] .
  have a1: "nodes fs1 abspath = nodes fs abspath" using ne nanc by (simp add: fs1_def)
  have nd1: "nodes fs1 abspath \<noteq> Some Directory" using a1 h5 by simp
  let ?fs' = "fs1\<lparr>nodes := (nodes fs1)(?tmp := None, abspath := Some (RegularFile
            (case nodes fs1 abspath of Some (RegularFile x) \<Rightarrow> x | _ \<Rightarrow> c)))\<rparr>"
  note step = publish_step[OF d1 t1 neq nd1 dn]
  have res: "finalizeUpload sha512 assetstore fs upload file
      = (?fs', Inr (file\<lparr>file_sha512 := hash, file_path := spec_shard_path hash\<rparr>))"
    unfolding finalizeUpload_def Let_def hash[symmetric] pth absdir[symmetric] abspath[symmetric]
    unfolding mk prod.case sum.case step ..
  have c1: "nodes ?fs' ?tmp = None" using neq by simp
  have c2: "nodes ?fs' absdir = Some Directory" using d1 ne tne by auto
  have c3: "nodes ?fs' abspath = Some (RegularFile
                 (case nodes fs abspath of Some (RegularFile x) \<Rightarrow> x | _ \<Rightarrow> c))"
    using a1 by simp
  have c4: "\<forall>q x. q \<noteq> ?tmp \<longrightarrow> nodes fs q = Some (RegularFile x)
                  \<longrightarrow> nodes ?fs' q = Some (RegularFile x)"
  proof (intro allI impI)
    fix q x assume q: "q \<noteq> ?tmp" and f: "nodes fs q = Some (RegularFile x)"
    show "nodes ?fs' q = Some (RegularFile x)"
    proof (cases "q = abspath")
      case True
      with f a1 show ?thesis by simp
    next
      case False
      with q keep[OF f] show ?thesis by simp
    qed
  qed
  from res c1 c2 c3 c4 show ?thesis by blast
qed


lemma finalizeUpload_duplicate:
  assumes hash: "hash = hexdigest sha512 (restoreHex (upload_sha512state upload))"
    and absdir: "absdir = os_path_join (assetstore_root assetstore)
                            (os_path_join (take 2 hash) (take 2 (drop 2 hash)))"
    and abspath: "abspath = os_path_join (assetstore_root assetstore) (spec_shard_path hash)"
    and dir_there: "os_path_exists fs absdir"
    and file_there: "os_path_exists fs abspath"
    and tmp: "nodes fs (upload_tempFile upload) = Some (RegularFile c)"
  shows "finalizeUpload sha512 assetstore fs upload file
           = (fs\<lparr>nodes := (nodes fs)(upload_tempFile upload := None)\<rparr>,
              Inr (file\<lparr>file_sha512 := hash, file_path := spec_shard_path hash\<rparr>))"
proof -
  obtain w where hw: "hash = hex_of_digest w"
    unfolding hash by (cases "restoreHex (upload_sha512state upload)") simp
  have len: "4 \<le> length hash" and ns: "CHR ''/'' \<notin> set hash"
    unfolding hw by (simp_all add: length_hex_of_digest hex_of_digest_no_slash)
  have pth: "os_path_join (os_path_join (take 2 hash) (take 2 (drop 2 hash))) hash = spec_shard_path hash"
    by (rule shard_paths(1)[OF len ns])
  have mk: "(if \<not> os_path_exists fs absdir then os_makedirs fs absdir else (fs, Inr ())) = (fs, Inr ())"
    using dir_there by simp
  have rm: "(if os_path_exists fs abspath then os_remove fs (upload_tempFile upload)
             else shutil_move fs (upload_tempFile upload) abspath)
      = (fs\<lparr>nodes := (nodes fs)(upload_tempFile upload := None)\<rparr>, Inr ())"
    using file_there tmp by (simp add: os_remove_def)
  show ?thesis
    unfolding finalizeUpload_def Let_def hash[symmetric] pth absdir[symmetric] abspath[symmetric]
    unfolding mk prod.case sum.case rm ..
qed

text \<open>
  C1 (dedup idempotence of finalize). Two upload sessions have received the same
  content: each temporary file holds it and each stored checksum state is that of the
  content. \<open>hash\<close> is the hexadecimal digest of the content and \<open>abspath\<close> the
  canonical shard path under the root. The store is well formed: the temporary files
  are distinct and none is the canonical path, no regular file stands where the shard
  directory or a directory above it has to be, the shard directory exists or may be
  created (the deepest existing directory above it is writable), and the canonical
  path is not a directory. Then finalizing the first session and after it the second succeeds; both
  file records carry the digest \<open>hash\<close> and the relative path
  \<open>hash[0:2]/hash[2:4]/hash\<close>; afterwards a regular file stands at the canonical path
  and both temporary files are gone, so of the three one physical file is left; the
  second finalize deletes its temporary file and leaves the published bytes as the
  first left them; and when nothing was published before, the published bytes are the
  content.
\<close>

theorem finalizeUpload_dedup:
  assumes d1: "restoreHex (upload_sha512state upload1) = checksum_update sha512_new content"
    and d2: "restoreHex (upload_sha512state upload2) = checksum_update sha512_new content"
    and t1: "nodes fs (upload_tempFile upload1) = Some (RegularFile content)"
    and t2: "nodes fs (upload_tempFile upload2) = Some (RegularFile content)"
    and hash: "hash = hex_of_digest (sha512 content)"
    and absdir: "absdir = os_path_join (assetstore_root assetstore)
                            (os_path_join (take 2 hash) (take 2 (drop 2 hash)))"
    and abspath: "abspath = os_path_join (assetstore_root assetstore) (spec_shard_path hash)"
    and apart: "upload_tempFile upload1 \<noteq> upload_tempFile upload2"
    and n1: "upload_tempFile upload1 \<noteq> abspath"
    and n2: "upload_tempFile upload2 \<noteq> abspath"
    and h3: "\<not> os_path_isfile fs absdir"
    and h4: "\<not> list_ex (os_path_isfile fs) (ancestors absdir)"
    and h5: "nodes fs abspath \<noteq> Some Directory"
    and h6: "os_path_exists fs absdir \<or> mkdir_allowed fs absdir"
  shows "\<exists>fs1 fs2 file1' file2'.
           finalizeUpload sha512 assetstore fs upload1 file1 = (fs1, Inr file1')
         \<and> finalizeUpload sha512 assetstore fs1 upload2 file2 = (fs2, Inr file2')
         \<and> file_sha512 file1' = hash \<and> file_sha512 file2' = hash
         \<and> file_path file1' = spec_shard_path hash \<and> file_path file2' = spec_shard_path hash
         \<and> os_path_isfile fs2 abspath
         \<and> nodes fs2 (upload_tempFile upload1) = None
         \<and> nodes fs2 (upload_tempFile upload2) = None
         \<and> nodes fs2 abspath = nodes fs1 abspath
         \<and> (nodes fs abspath = None \<longrightarrow> nodes fs2 abspath = Some (RegularFile content))"
proof -
  let ?t1 = "upload_tempFile upload1" and ?t2 = "upload_tempFile upload2"
  have hash1: "hash = hexdigest sha512 (restoreHex (upload_sha512state upload1))"
    unfolding d1 hash by (simp add: sha512_new_def)
  have hash2: "hash = hexdigest sha512 (restoreHex (upload_sha512state upload2))"
    unfolding d2 hash by (simp add: sha512_new_def)
  from finalizeUpload_publishes[OF hash1 absdir abspath t1 n1 h3 h4 h5 h6, of file1]
  obtain fs1 where f1: "finalizeUpload sha512 assetstore fs upload1 file1
                 = (fs1, Inr (file1\<lparr>file_sha512 := hash, file_path := spec_shard_path hash\<rparr>))"
    and g1: "nodes fs1 ?t1 = None"
    and dir1: "nodes fs1 absdir = Some Directory"
    and pub1: "nodes fs1 abspath = Some (RegularFile
                 (case nodes fs abspath of Some (RegularFile x) \<Rightarrow> x | _ \<Rightarrow> content))"
    and keep1: "\<forall>q x. q \<noteq> ?t1 \<longrightarrow> nodes fs q = Some (RegularFile x)
                  \<longrightarrow> nodes fs1 q = Some (RegularFile x)"
    by blast
  have t2': "nodes fs1 ?t2 = Some (RegularFile content)"
    using keep1 apart t2 by metis
  have de: "os_path_exists fs1 absdir" using dir1 by (simp add: os_path_exists_def)
  have fe: "os_path_exists fs1 abspath" using pub1 by (simp add: os_path_exists_def)
  let ?fs2 = "fs1\<lparr>nodes := (nodes fs1)(?t2 := None)\<rparr>"
  have f2: "finalizeUpload sha512 assetstore fs1 upload2 file2
           = (?fs2, Inr (file2\<lparr>file_sha512 := hash, file_path := spec_shard_path hash\<rparr>))"
    using finalizeUpload_duplicate[OF hash2 absdir abspath de fe t2'] .
  have same: "nodes ?fs2 abspath = nodes fs1 abspath" using n2 by simp
  have isf: "os_path_isfile ?fs2 abspath" using same pub1 by (simp add: os_path_isfile_def)
  have g1': "nodes ?fs2 ?t1 = None" using g1 by simp
  have g2: "nodes ?fs2 ?t2 = None" by simp
  have fresh: "nodes fs abspath = None \<longrightarrow> nodes ?fs2 abspath = Some (RegularFile content)"
    using same pub1 by simp
  show ?thesis
    using f1 f2 isf g1' g2 same fresh
    by (intro exI[of _ fs1] exI[of _ ?fs2]
          exI[of _ "file1\<lparr>file_sha512 := hash, file_path := spec_shard_path hash\<rparr>"]
          exI[of _ "file2\<lparr>file_sha512 := hash, file_path := spec_shard_path hash\<rparr>"]) simp
qed

lemma hex_of_digest_zero: "hex_of_digest 0 = replicate 128 (CHR ''0'')"
  by (simp add: hex_of_digest_def hex_char_def map_replicate_const)

theorem finalizeUpload_dedup_witness:
  "\<exists>fs1 fs2 file1' file2'.
     finalizeUpload (\<lambda>bs. 0) \<lparr>assetstore_root = ''/r'', assetstore_id = 1\<rparr>
       \<lparr>nodes = [''/'' \<mapsto> Directory, ''/r'' \<mapsto> Directory,
                 ''/r/temp/a'' \<mapsto> RegularFile [1], ''/r/temp/b'' \<mapsto> RegularFile [1]],
        dir_entries = (\<lambda>p. []), dir_st_size = (\<lambda>p. 0), writable = (\<lambda>p. True),
        st_mtime = (\<lambda>p. 0)\<rparr>
       \<lparr>upload_tempFile = ''/r/temp/a'', upload_sha512state = HexState [1],
        upload_received = 1, upload_size = 1\<rparr>
       \<lparr>file_name = ''x'', file_sha512 = [], file_path = [], file_size = 1,
        file_imported = False, file_mtime = 0, file_assetstoreId = 1\<rparr> = (fs1, Inr file1')
   \<and> finalizeUpload (\<lambda>bs. 0) \<lparr>assetstore_root = ''/r'', assetstore_id = 1\<rparr> fs1
       \<lparr>upload_tempFile = ''/r/temp/b'', upload_sha512state = HexState [1],
        upload_received = 1, upload_size = 1\<rparr>
       \<lparr>file_name = ''x'', file_sha512 = [], file_path = [], file_size = 1,
        file_imported = False, file_mtime = 0, file_assetstoreId = 1\<rparr> = (fs2, Inr file2')
   \<and> file_sha512 file1' = file_sha512 file2'
   \<and> file_path file1' = file_path file2'
   \<and> file_path file1' = ''00/00/'' @ replicate 128 (CHR ''0'')
   \<and> os_path_isfile fs2 (''/r/00/00/'' @ replicate 128 (CHR ''0''))
   \<and> nodes fs2 ''/r/temp/a'' = None \<and> nodes fs2 ''/r/temp/b'' = None"
proof -
  let ?hash = "replicate 128 (CHR ''0'')"
  let ?A = "\<lparr>assetstore_root = ''/r'', assetstore_id = 1\<rparr>"
  let ?FS = "\<lparr>nodes = [''/'' \<mapsto> Directory, ''/r'' \<mapsto> Directory,
                 ''/r/temp/a'' \<mapsto> RegularFile [1], ''/r/temp/b'' \<mapsto> RegularFile [1]],
        dir_entries = (\<lambda>p. []), dir_st_size = (\<lambda>p. 0), writable = (\<lambda>p. True),
        st_mtime = (\<lambda>p. 0)\<rparr>"
  let ?U1 = "\<lparr>upload_tempFile = ''/r/temp/a'', upload_sha512state = HexState [1],
        upload_received = 1, upload_size = 1\<rparr>"
  let ?U2 = "\<lparr>upload_tempFile = ''/r/temp/b'', upload_sha512state = HexState [1],
        upload_received = 1, upload_size = 1\<rparr>"
  let ?F = "\<lparr>file_name = ''x'', file_sha512 = [], file_path = [], file_size = 1,
        file_imported = False, file_mtime = 0, file_assetstoreId = 1\<rparr>"
  have hash: "?hash = hex_of_digest ((\<lambda>bs. 0) [1 :: byte])"
    by (simp add: hex_of_digest_zero)
  have t2: "take 2 ?hash = ''00''" and t4: "take 2 (drop 2 ?hash) = ''00''"
    by (simp_all add: numeral_eq_Suc)
  have sp: "spec_shard_path ?hash = ''00/00/'' @ ?hash"
    unfolding spec_shard_path_def t2 t4 by simp
  have absdir: "''/r/00/00'' = os_path_join (assetstore_root ?A)
       (os_path_join (take 2 ?hash) (take 2 (drop 2 ?hash)))"
    unfolding t2 t4 by (simp add: os_path_join_def)
  have abspath: "''/r/00/00/'' @ ?hash = os_path_join (assetstore_root ?A) (spec_shard_path ?hash)"
    unfolding sp by (simp add: os_path_join_def)
  have anc: "ancestors ''/r/00/00'' = [''/'', ''/r'', ''/r/00'']"
    by code_simp
  note T = finalizeUpload_dedup[
      of ?U1 "[1]" ?U2 ?FS ?hash "\<lambda>bs. 0" "''/r/00/00''" ?A "''/r/00/00/'' @ ?hash" ?F ?F,
      OF _ _ _ _ hash absdir abspath]
  have "\<exists>fs1 fs2 file1' file2'.
           finalizeUpload (\<lambda>bs. 0) ?A ?FS ?U1 ?F = (fs1, Inr file1')
         \<and> finalizeUpload (\<lambda>bs. 0) ?A fs1 ?U2 ?F = (fs2, Inr file2')
         \<and> file_sha512 file1' = ?hash \<and> file_sha512 file2' = ?hash
         \<and> file_path file1' = spec_shard_path ?hash \<and> file_path file2' = spec_shard_path ?hash
         \<and> os_path_isfile fs2 (''/r/00/00/'' @ ?hash)
         \<and> nodes fs2 (upload_tempFile ?U1) = None
         \<and> nodes fs2 (upload_tempFile ?U2) = None
         \<and> nodes fs2 (''/r/00/00/'' @ ?hash) = nodes fs1 (''/r/00/00/'' @ ?hash)
         \<and> (nodes ?FS (''/r/00/00/'' @ ?hash) = None
              \<longrightarrow> nodes fs2 (''/r/00/00/'' @ ?hash) = Some (RegularFile [1]))"
    by (rule T)
       (simp_all add: sha512_new_def anc os_path_isfile_def os_path_exists_def mkdir_allowed_def)
  then show ?thesis unfolding sp by simp metis
qed

subsection \<open>Deleting a file\<close>

lemma matches_digest:
  "matches [(''sha512'', StrVal d), (''assetstoreId'', NatVal i)] f
     = (file_sha512 f = d \<and> file_assetstoreId f = i)"
  by (simp add: matches_def file_get_def)

lemma file_find_digest:
  "file_find collection [(''sha512'', StrVal d), (''assetstoreId'', NatVal i)]
     = filter (\<lambda>f. file_sha512 f = d \<and> file_assetstoreId f = i) collection"
  unfolding file_find_def by (rule filter_cong) (simp_all add: matches_digest)

lemma deleteFile_imported:
  "file_imported file \<Longrightarrow> deleteFile assetstore collection fs file = (fs, Inr ())"
  by (simp add: deleteFile_def)

lemma deleteFile_shared:
  assumes "\<not> file_imported file"
    and "2 \<le> length (filter (\<lambda>f. file_sha512 f = file_sha512 file
                 \<and> file_assetstoreId f = assetstore_id assetstore) collection)"
  shows "deleteFile assetstore collection fs file = (fs, Inr ())"
  using assms by (simp add: deleteFile_def file_find_digest count_with_limit_def Let_def)

lemma deleteFile_sole:
  assumes "\<not> file_imported file"
    and "length (filter (\<lambda>f. file_sha512 f = file_sha512 file
                 \<and> file_assetstoreId f = assetstore_id assetstore) collection) = 1"
    and p: "p = os_path_join (assetstore_root assetstore) (file_path file)"
  shows "\<exists>fs'. deleteFile assetstore collection fs file = (fs', Inr ())
            \<and> \<not> os_path_isfile fs' p
            \<and> (os_path_isfile fs p \<longrightarrow> nodes fs' p = None)
            \<and> (\<not> os_path_isfile fs p \<longrightarrow> fs' = fs)
            \<and> (\<forall>q. q \<noteq> p \<longrightarrow> nodes fs' q = nodes fs q)"
proof (cases "os_path_isfile fs p")
  case True
  then obtain content where c: "nodes fs p = Some (RegularFile content)"
    by (auto simp: os_path_isfile_def split: option.splits node.splits)
  have "deleteFile assetstore collection fs file = (fs\<lparr>nodes := (nodes fs)(p := None)\<rparr>, Inr ())"
    using assms(1,2) True c
    by (simp add: deleteFile_def file_find_digest count_with_limit_def Let_def p[symmetric]
                  os_remove_def)
  then show ?thesis using True by (simp add: os_path_isfile_def)
next
  case False
  have "deleteFile assetstore collection fs file = (fs, Inr ())"
    using assms(1,2) False
    by (simp add: deleteFile_def file_find_digest count_with_limit_def Let_def p[symmetric])
  then show ?thesis using False by simp
qed

text \<open>
  C6 (reference-safe deletion). \<open>holders\<close> are the records of the collection that
  belong to the adapter's assetstore and share the digest of the record, and \<open>p\<close> is
  the path of the physical file. Deleting an imported record does nothing to the file
  system. Deleting a record that is not imported leaves the file system as it is when
  there are two or more holders; when there is exactly one holder, the physical file
  is removed if it is present, nothing happens if it is not, and no other path
  changes. So when a record and another one are the two holders, deleting the record
  leaves the bytes in place, and once it is gone from the collection, deleting the
  other one, now the sole holder, removes them.
\<close>

theorem deleteFile_reference_safe:
  assumes holders: "holders = filter (\<lambda>f. file_sha512 f = file_sha512 file
                       \<and> file_assetstoreId f = assetstore_id assetstore) collection"
    and p: "p = os_path_join (assetstore_root assetstore) (file_path file)"
  shows "(file_imported file \<longrightarrow> deleteFile assetstore collection fs file = (fs, Inr ()))
       \<and> (\<not> file_imported file \<and> 2 \<le> length holders
            \<longrightarrow> deleteFile assetstore collection fs file = (fs, Inr ()))
       \<and> (\<not> file_imported file \<and> length holders = 1
            \<longrightarrow> (\<exists>fs'. deleteFile assetstore collection fs file = (fs', Inr ())
                   \<and> \<not> os_path_isfile fs' p
                   \<and> (os_path_isfile fs p \<longrightarrow> nodes fs' p = None)
                   \<and> (\<not> os_path_isfile fs p \<longrightarrow> fs' = fs)
                   \<and> (\<forall>q. q \<noteq> p \<longrightarrow> nodes fs' q = nodes fs q)))
       \<and> (\<forall>other. \<not> file_imported file \<and> \<not> file_imported other
              \<and> holders = [file, other] \<and> file_path other = file_path file
            \<longrightarrow> deleteFile assetstore collection fs file = (fs, Inr ())
              \<and> (\<exists>fs'. deleteFile assetstore (remove1 file collection) fs other = (fs', Inr ())
                     \<and> \<not> os_path_isfile fs' p))"
proof (intro conjI impI allI)
  assume "file_imported file"
  then show "deleteFile assetstore collection fs file = (fs, Inr ())"
    by (rule deleteFile_imported)
next
  assume a: "\<not> file_imported file \<and> 2 \<le> length holders"
  then have "2 \<le> length (filter (\<lambda>f. file_sha512 f = file_sha512 file
                 \<and> file_assetstoreId f = assetstore_id assetstore) collection)"
    unfolding holders by simp
  with a show "deleteFile assetstore collection fs file = (fs, Inr ())"
    by (simp add: deleteFile_shared)
next
  assume a: "\<not> file_imported file \<and> length holders = 1"
  then have "length (filter (\<lambda>f. file_sha512 f = file_sha512 file
                 \<and> file_assetstoreId f = assetstore_id assetstore) collection) = 1"
    unfolding holders by simp
  with a show "\<exists>fs'. deleteFile assetstore collection fs file = (fs', Inr ())
                   \<and> \<not> os_path_isfile fs' p
                   \<and> (os_path_isfile fs p \<longrightarrow> nodes fs' p = None)
                   \<and> (\<not> os_path_isfile fs p \<longrightarrow> fs' = fs)
                   \<and> (\<forall>q. q \<noteq> p \<longrightarrow> nodes fs' q = nodes fs q)"
    using deleteFile_sole[OF _ _ p, of collection fs] by simp
next
  fix other
  assume a: "\<not> file_imported file \<and> \<not> file_imported other
              \<and> holders = [file, other] \<and> file_path other = file_path file"
  then have "2 \<le> length (filter (\<lambda>f. file_sha512 f = file_sha512 file
                 \<and> file_assetstoreId f = assetstore_id assetstore) collection)"
    unfolding holders[symmetric] by simp
  with a show "deleteFile assetstore collection fs file = (fs, Inr ())"
    by (simp add: deleteFile_shared)
next
  fix other
  assume a: "\<not> file_imported file \<and> \<not> file_imported other
              \<and> holders = [file, other] \<and> file_path other = file_path file"
  let ?P = "\<lambda>f. file_sha512 f = file_sha512 file
                       \<and> file_assetstoreId f = assetstore_id assetstore"
  have "other \<in> set holders" using a by simp
  then have same: "file_sha512 other = file_sha512 file"
    "file_assetstoreId other = assetstore_id assetstore"
    unfolding holders by auto
  have "filter ?P (remove1 file collection) = remove1 file (filter ?P collection)"
    by (rule filter_remove1)
  also have "\<dots> = [other]" using a holders by simp
  finally have sole: "length (filter (\<lambda>f. file_sha512 f = file_sha512 other
                 \<and> file_assetstoreId f = assetstore_id assetstore) (remove1 file collection)) = 1"
    unfolding same by simp
  have p': "p = os_path_join (assetstore_root assetstore) (file_path other)"
    using p a by simp
  from deleteFile_sole[OF _ sole p', of fs] a
  show "\<exists>fs'. deleteFile assetstore (remove1 file collection) fs other = (fs', Inr ())
                     \<and> \<not> os_path_isfile fs' p"
    by blast
qed

theorem deleteFile_reference_safe_witness:
  "deleteFile \<lparr>assetstore_root = ''/r'', assetstore_id = 1\<rparr> [\<lparr>file_name = ''one'', file_sha512 = ''abcd'', file_path = ''ab/cd/abcd'',
        file_size = 2, file_imported = False, file_mtime = 0, file_assetstoreId = 1\<rparr>, \<lparr>file_name = ''two'', file_sha512 = ''abcd'', file_path = ''ab/cd/abcd'',
        file_size = 2, file_imported = False, file_mtime = 0, file_assetstoreId = 1\<rparr>] \<lparr>nodes = [''/r/ab/cd/abcd'' \<mapsto> RegularFile [1, 2]], dir_entries = (\<lambda>p. []),
        dir_st_size = (\<lambda>p. 0), writable = (\<lambda>p. True), st_mtime = (\<lambda>p. 0)\<rparr> \<lparr>file_name = ''one'', file_sha512 = ''abcd'', file_path = ''ab/cd/abcd'',
        file_size = 2, file_imported = False, file_mtime = 0, file_assetstoreId = 1\<rparr> = (\<lparr>nodes = [''/r/ab/cd/abcd'' \<mapsto> RegularFile [1, 2]], dir_entries = (\<lambda>p. []),
        dir_st_size = (\<lambda>p. 0), writable = (\<lambda>p. True), st_mtime = (\<lambda>p. 0)\<rparr>, Inr ())
   \<and> (\<exists>fs'. deleteFile \<lparr>assetstore_root = ''/r'', assetstore_id = 1\<rparr> [\<lparr>file_name = ''two'', file_sha512 = ''abcd'', file_path = ''ab/cd/abcd'',
        file_size = 2, file_imported = False, file_mtime = 0, file_assetstoreId = 1\<rparr>] \<lparr>nodes = [''/r/ab/cd/abcd'' \<mapsto> RegularFile [1, 2]], dir_entries = (\<lambda>p. []),
        dir_st_size = (\<lambda>p. 0), writable = (\<lambda>p. True), st_mtime = (\<lambda>p. 0)\<rparr> \<lparr>file_name = ''two'', file_sha512 = ''abcd'', file_path = ''ab/cd/abcd'',
        file_size = 2, file_imported = False, file_mtime = 0, file_assetstoreId = 1\<rparr> = (fs', Inr ())
          \<and> \<not> os_path_isfile fs' ''/r/ab/cd/abcd'')
   \<and> os_path_isfile \<lparr>nodes = [''/r/ab/cd/abcd'' \<mapsto> RegularFile [1, 2]], dir_entries = (\<lambda>p. []),
        dir_st_size = (\<lambda>p. 0), writable = (\<lambda>p. True), st_mtime = (\<lambda>p. 0)\<rparr> ''/r/ab/cd/abcd''"
proof -
  let ?A = "\<lparr>assetstore_root = ''/r'', assetstore_id = 1\<rparr>"
  let ?FS = "\<lparr>nodes = [''/r/ab/cd/abcd'' \<mapsto> RegularFile [1, 2]], dir_entries = (\<lambda>p. []),
        dir_st_size = (\<lambda>p. 0), writable = (\<lambda>p. True), st_mtime = (\<lambda>p. 0)\<rparr>"
  let ?F1 = "\<lparr>file_name = ''one'', file_sha512 = ''abcd'', file_path = ''ab/cd/abcd'',
        file_size = 2, file_imported = False, file_mtime = 0, file_assetstoreId = 1\<rparr>"
  let ?F2 = "\<lparr>file_name = ''two'', file_sha512 = ''abcd'', file_path = ''ab/cd/abcd'',
        file_size = 2, file_imported = False, file_mtime = 0, file_assetstoreId = 1\<rparr>"
  have holders: "[?F1, ?F2] = filter (\<lambda>f. file_sha512 f = file_sha512 ?F1
                       \<and> file_assetstoreId f = assetstore_id ?A) [?F1, ?F2]"
    by simp
  have p: "''/r/ab/cd/abcd'' = os_path_join (assetstore_root ?A) (file_path ?F1)"
    by (simp add: os_path_join_def)
  note T = deleteFile_reference_safe[OF holders p, of ?FS,
      THEN conjunct2, THEN conjunct2, THEN conjunct2, THEN spec, of ?F2]
  have "deleteFile ?A [?F1, ?F2] ?FS ?F1 = (?FS, Inr ())
      \<and> (\<exists>fs'. deleteFile ?A (remove1 ?F1 [?F1, ?F2]) ?FS ?F2 = (fs', Inr ())
             \<and> \<not> os_path_isfile fs' ''/r/ab/cd/abcd'')"
    by (rule T[THEN mp]) simp
  then show ?thesis by (simp add: os_path_isfile_def)
qed

subsection \<open>Scanning for invalid files\<close>

lemma check_file_missing:
  "\<lparr>finding_reason = ''missing'', finding_file = f, finding_path = p\<rparr>
       \<in> set (check_file assetstore fs checkSize g)
     \<longleftrightarrow> f = g \<and> p = fullPath assetstore g \<and> \<not> os_path_isfile fs p"
  by (auto simp: check_file_def Let_def)

lemma os_path_getsize_file:
  "nodes fs p = Some (RegularFile content) \<Longrightarrow> os_path_getsize fs p = length content"
  by (simp add: os_path_getsize_def os_stat_size_def)

lemma check_file_size:
  "\<lparr>finding_reason = ''size'', finding_file = f, finding_path = p\<rparr>
       \<in> set (check_file assetstore fs checkSize g)
     \<longleftrightarrow> f = g \<and> p = fullPath assetstore g \<and> checkSize
         \<and> (\<exists>content. nodes fs p = Some (RegularFile content) \<and> length content \<noteq> file_size g)"
proof (cases "nodes fs (fullPath assetstore g)")
  case None
  then show ?thesis by (auto simp: check_file_def Let_def os_path_isfile_def)
next
  case (Some n)
  show ?thesis
  proof (cases n)
    case (RegularFile content)
    with Some show ?thesis
      by (auto simp: check_file_def Let_def os_path_isfile_def os_path_getsize_file)
  next
    case Directory
    with Some show ?thesis by (auto simp: check_file_def Let_def os_path_isfile_def)
  qed
qed

lemma check_file_reasons:
  "x \<in> set (check_file assetstore fs checkSize g)
     \<Longrightarrow> finding_reason x = ''missing'' \<or> finding_reason x = ''size''"
  by (auto simp: check_file_def Let_def split: if_splits)

lemma same_shape_isfile:
  "same_shape fs fs' \<Longrightarrow> os_path_isfile fs' p = os_path_isfile fs p"
proof -
  assume "same_shape fs fs'"
  then have "node_shape (nodes fs p) = node_shape (nodes fs' p)" by (simp add: same_shape_def)
  then show ?thesis
    by (auto simp: node_shape_def os_path_isfile_def split: option.splits node.splits)
qed

lemma same_shape_stat_size:
  "same_shape fs fs' \<Longrightarrow> os_stat_size fs' p = os_stat_size fs p"
proof -
  assume s: "same_shape fs fs'"
  then have "node_shape (nodes fs p) = node_shape (nodes fs' p)" by (simp add: same_shape_def)
  moreover have "dir_st_size fs' p = dir_st_size fs p" using s by (simp add: same_shape_def)
  ultimately show ?thesis
    by (auto simp: node_shape_def os_stat_size_def split: option.splits node.splits)
qed

lemma same_shape_getsize:
  assumes s: "same_shape fs fs'"
  shows "os_path_getsize fs' p = os_path_getsize fs p"
  by (simp add: os_path_getsize_def same_shape_stat_size[OF s])

lemma same_shape_check_file:
  assumes s: "same_shape fs fs'"
  shows "check_file assetstore fs' checkSize g = check_file assetstore fs checkSize g"
  by (simp add: check_file_def Let_def same_shape_isfile[OF s] same_shape_getsize[OF s]
        cong: if_cong)

lemma same_shape_check_file_fun:
  assumes s: "same_shape fs fs'"
  shows "check_file assetstore fs' checkSize = check_file assetstore fs checkSize"
  by (rule ext) (rule same_shape_check_file[OF s])

lemma dict_merge_assetstore_only:
  "file_find collection (dict_merge [(''assetstoreId'', NatVal i)] [])
     = filter (\<lambda>f. file_assetstoreId f = i) collection"
  unfolding file_find_def
  by (rule filter_cong) (simp_all add: dict_merge_def matches_def file_get_def)

text \<open>
  C5 (scan completeness). \<open>cursor\<close> holds the records the scan goes through: those of
  the collection that match the query, which is the assetstore's id and the filters
  given (without filters, exactly the records of the assetstore). The scan yields a
  finding with reason \<open>missing\<close> for exactly the records of the cursor whose resolved
  path is not a regular file, always with the resolved path; it yields a finding with
  reason \<open>size\<close> for exactly the records whose backing file exists with a length other
  than the declared size, and only when \<open>checkSize\<close> is set; it yields nothing else.
  The findings do not depend on the bytes of any file: a file system with the same
  files of the same lengths gives the same findings.
\<close>

theorem findInvalidFiles_complete:
  assumes cursor: "cursor = file_find collection
                     (dict_merge [(''assetstoreId'', NatVal (assetstore_id assetstore))]
                        (case filters of None \<Rightarrow> [] | Some f \<Rightarrow> f))"
  shows "(\<forall>f p. \<lparr>finding_reason = ''missing'', finding_file = f, finding_path = p\<rparr>
                   \<in> set (findInvalidFiles assetstore collection fs filters checkSize)
               \<longleftrightarrow> f \<in> set cursor \<and> p = fullPath assetstore f \<and> \<not> os_path_isfile fs p)
       \<and> (\<forall>f p. \<lparr>finding_reason = ''size'', finding_file = f, finding_path = p\<rparr>
                   \<in> set (findInvalidFiles assetstore collection fs filters checkSize)
               \<longleftrightarrow> f \<in> set cursor \<and> p = fullPath assetstore f \<and> checkSize
                   \<and> (\<exists>content. nodes fs p = Some (RegularFile content)
                          \<and> length content \<noteq> file_size f))
       \<and> (\<forall>x \<in> set (findInvalidFiles assetstore collection fs filters checkSize).
              finding_reason x = ''missing'' \<or> finding_reason x = ''size'')
       \<and> (filters = None
            \<longrightarrow> cursor = filter (\<lambda>f. file_assetstoreId f = assetstore_id assetstore) collection)
       \<and> (\<forall>fs'. same_shape fs fs'
            \<longrightarrow> findInvalidFiles assetstore collection fs' filters checkSize
                = findInvalidFiles assetstore collection fs filters checkSize)"
proof -
  have unfold: "findInvalidFiles assetstore collection fs0 filters checkSize
      = concat (map (check_file assetstore fs0 checkSize) cursor)" for fs0
    by (simp add: findInvalidFiles_def Let_def cursor)
  have m: "\<forall>f p. \<lparr>finding_reason = ''missing'', finding_file = f, finding_path = p\<rparr>
                   \<in> set (findInvalidFiles assetstore collection fs filters checkSize)
               \<longleftrightarrow> f \<in> set cursor \<and> p = fullPath assetstore f \<and> \<not> os_path_isfile fs p"
    unfolding unfold by (auto simp: check_file_missing)
  have s: "\<forall>f p. \<lparr>finding_reason = ''size'', finding_file = f, finding_path = p\<rparr>
                   \<in> set (findInvalidFiles assetstore collection fs filters checkSize)
               \<longleftrightarrow> f \<in> set cursor \<and> p = fullPath assetstore f \<and> checkSize
                   \<and> (\<exists>content. nodes fs p = Some (RegularFile content)
                          \<and> length content \<noteq> file_size f)"
    unfolding unfold by (auto simp: check_file_size)
  have r: "\<forall>x \<in> set (findInvalidFiles assetstore collection fs filters checkSize).
              finding_reason x = ''missing'' \<or> finding_reason x = ''size''"
    unfolding unfold using check_file_reasons by fastforce
  have n: "filters = None
            \<longrightarrow> cursor = filter (\<lambda>f. file_assetstoreId f = assetstore_id assetstore) collection"
    unfolding cursor by (simp add: dict_merge_assetstore_only)
  have i: "\<forall>fs'. same_shape fs fs'
            \<longrightarrow> findInvalidFiles assetstore collection fs' filters checkSize
                = findInvalidFiles assetstore collection fs filters checkSize"
  proof (intro allI impI)
    fix fs' assume sh: "same_shape fs fs'"
    show "findInvalidFiles assetstore collection fs' filters checkSize
                = findInvalidFiles assetstore collection fs filters checkSize"
      unfolding unfold same_shape_check_file_fun[OF sh] ..
  qed
  from m s r n i show ?thesis by (intro conjI)
qed

theorem findInvalidFiles_complete_witness:
  "findInvalidFiles \<lparr>assetstore_root = ''/r'', assetstore_id = 1\<rparr> [\<lparr>file_name = ''x'', file_sha512 = ''abcd'', file_path = ''ab/cd/x'',
        file_size = 3, file_imported = False, file_mtime = 0, file_assetstoreId = 1\<rparr>, \<lparr>file_name = ''y'', file_sha512 = ''abcd'', file_path = ''ab/cd/y'',
        file_size = 5, file_imported = False, file_mtime = 0, file_assetstoreId = 1\<rparr>] \<lparr>nodes = [''/r/ab/cd/x'' \<mapsto> RegularFile [1, 2]], dir_entries = (\<lambda>p. []),
        dir_st_size = (\<lambda>p. 0), writable = (\<lambda>p. True), st_mtime = (\<lambda>p. 0)\<rparr> None True
     = [\<lparr>finding_reason = ''size'', finding_file = \<lparr>file_name = ''x'', file_sha512 = ''abcd'', file_path = ''ab/cd/x'',
        file_size = 3, file_imported = False, file_mtime = 0, file_assetstoreId = 1\<rparr>, finding_path = ''/r/ab/cd/x''\<rparr>,
        \<lparr>finding_reason = ''missing'', finding_file = \<lparr>file_name = ''y'', file_sha512 = ''abcd'', file_path = ''ab/cd/y'',
        file_size = 5, file_imported = False, file_mtime = 0, file_assetstoreId = 1\<rparr>, finding_path = ''/r/ab/cd/y''\<rparr>]
   \<and> findInvalidFiles \<lparr>assetstore_root = ''/r'', assetstore_id = 1\<rparr> [\<lparr>file_name = ''x'', file_sha512 = ''abcd'', file_path = ''ab/cd/x'',
        file_size = 3, file_imported = False, file_mtime = 0, file_assetstoreId = 1\<rparr>, \<lparr>file_name = ''y'', file_sha512 = ''abcd'', file_path = ''ab/cd/y'',
        file_size = 5, file_imported = False, file_mtime = 0, file_assetstoreId = 1\<rparr>] \<lparr>nodes = [''/r/ab/cd/x'' \<mapsto> RegularFile [1, 2]], dir_entries = (\<lambda>p. []),
        dir_st_size = (\<lambda>p. 0), writable = (\<lambda>p. True), st_mtime = (\<lambda>p. 0)\<rparr> None False
     = [\<lparr>finding_reason = ''missing'', finding_file = \<lparr>file_name = ''y'', file_sha512 = ''abcd'', file_path = ''ab/cd/y'',
        file_size = 5, file_imported = False, file_mtime = 0, file_assetstoreId = 1\<rparr>, finding_path = ''/r/ab/cd/y''\<rparr>]
   \<and> \<lparr>finding_reason = ''missing'', finding_file = \<lparr>file_name = ''y'', file_sha512 = ''abcd'', file_path = ''ab/cd/y'',
        file_size = 5, file_imported = False, file_mtime = 0, file_assetstoreId = 1\<rparr>, finding_path = ''/r/ab/cd/y''\<rparr>
       \<in> set (findInvalidFiles \<lparr>assetstore_root = ''/r'', assetstore_id = 1\<rparr> [\<lparr>file_name = ''x'', file_sha512 = ''abcd'', file_path = ''ab/cd/x'',
        file_size = 3, file_imported = False, file_mtime = 0, file_assetstoreId = 1\<rparr>, \<lparr>file_name = ''y'', file_sha512 = ''abcd'', file_path = ''ab/cd/y'',
        file_size = 5, file_imported = False, file_mtime = 0, file_assetstoreId = 1\<rparr>] \<lparr>nodes = [''/r/ab/cd/x'' \<mapsto> RegularFile [1, 2]], dir_entries = (\<lambda>p. []),
        dir_st_size = (\<lambda>p. 0), writable = (\<lambda>p. True), st_mtime = (\<lambda>p. 0)\<rparr> None True)"
proof -
  let ?A = "\<lparr>assetstore_root = ''/r'', assetstore_id = 1\<rparr>"
  let ?FS = "\<lparr>nodes = [''/r/ab/cd/x'' \<mapsto> RegularFile [1, 2]], dir_entries = (\<lambda>p. []),
        dir_st_size = (\<lambda>p. 0), writable = (\<lambda>p. True), st_mtime = (\<lambda>p. 0)\<rparr>"
  let ?FX = "\<lparr>file_name = ''x'', file_sha512 = ''abcd'', file_path = ''ab/cd/x'',
        file_size = 3, file_imported = False, file_mtime = 0, file_assetstoreId = 1\<rparr>"
  let ?FY = "\<lparr>file_name = ''y'', file_sha512 = ''abcd'', file_path = ''ab/cd/y'',
        file_size = 5, file_imported = False, file_mtime = 0, file_assetstoreId = 1\<rparr>"
  have cursor: "[?FX, ?FY] = file_find [?FX, ?FY]
                     (dict_merge [(''assetstoreId'', NatVal (assetstore_id ?A))]
                        (case None of None \<Rightarrow> [] | Some f \<Rightarrow> f))"
    by (simp add: file_find_def dict_merge_def matches_def file_get_def)
  note T = findInvalidFiles_complete[OF cursor, of ?FS True, THEN conjunct1, THEN spec, THEN spec,
      of ?FY "''/r/ab/cd/y''"]
  have mem: "\<lparr>finding_reason = ''missing'', finding_file = ?FY, finding_path = ''/r/ab/cd/y''\<rparr>
       \<in> set (findInvalidFiles ?A [?FX, ?FY] ?FS None True)"
    by (rule T[THEN iffD2]) (simp add: fullPath_def os_path_join_def os_path_isfile_def)
  have e1: "findInvalidFiles ?A [?FX, ?FY] ?FS None True
     = [\<lparr>finding_reason = ''size'', finding_file = ?FX, finding_path = ''/r/ab/cd/x''\<rparr>,
        \<lparr>finding_reason = ''missing'', finding_file = ?FY, finding_path = ''/r/ab/cd/y''\<rparr>]"
    by (simp add: findInvalidFiles_def file_find_def dict_merge_def matches_def file_get_def
          check_file_def fullPath_def os_path_join_def os_path_isfile_def os_path_getsize_def
          os_stat_size_def Let_def)
  have e2: "findInvalidFiles ?A [?FX, ?FY] ?FS None False
     = [\<lparr>finding_reason = ''missing'', finding_file = ?FY, finding_path = ''/r/ab/cd/y''\<rparr>]"
    by (simp add: findInvalidFiles_def file_find_def dict_merge_def matches_def file_get_def
          check_file_def fullPath_def os_path_join_def os_path_isfile_def os_path_getsize_def
          os_stat_size_def Let_def)
  from e1 e2 mem show ?thesis by (intro conjI)
qed

subsection \<open>Validating the root\<close>

lemma os_makedirs_fails:
  "os_path_isfile fs p \<or> list_ex (os_path_isfile fs) (ancestors p) \<or> \<not> mkdir_allowed fs p
     \<Longrightarrow> os_makedirs fs p = (fs, Inl OSError)"
  by (auto simp: os_makedirs_def os_path_isfile_def os_path_exists_def
           split: option.splits node.splits)

lemma os_makedirs_result:
  "os_makedirs fs p = (fs', Inr u) \<Longrightarrow> os_path_isdir fs' p"
  by (auto simp: os_makedirs_def os_path_isdir_def split: if_splits)

lemma os_makedirs_error: "os_makedirs fs p = (fs', Inl e) \<Longrightarrow> fs' = fs"
  by (auto simp: os_makedirs_def split: if_splits)

text \<open>
  C7 (validation of the root at configuration time). \<open>root\<close> is the root
  of the document after \<open>~\<close> has been expanded. \<^verbatim>\<open>validateInfo\<close> rejects with a
  \<^verbatim>\<open>ValidationException\<close> a root that is not absolute, a root that is not a directory
  and that \<^verbatim>\<open>os.makedirs\<close> fails to create (as it does, leaving the file system as it
  is, when a regular file stands at the root or above it, or when the directory to
  create in is not writable), and a root directory that is not writable. A root that
  does not exist is not rejected for that: when \<^verbatim>\<open>os.makedirs\<close> creates it, it is a
  directory afterwards, and it is accepted, with the expanded root written back to
  the document, if the new directory is writable, and rejected, with the new directory
  left behind, if it is not. A writable root directory is accepted and the file system
  left as it is. Whenever \<^verbatim>\<open>validateInfo\<close> accepts, the root is absolute, is a
  directory of the file system it leaves, and is writable there.
\<close>

theorem validateInfo_root_checks:
  assumes root: "root = os_path_expanduser env (assetstore_root doc)"
  shows "(\<not> os_path_isabs root
            \<longrightarrow> (\<exists>msg. validateInfo env fs doc = (fs, Inl (ValidationException msg))))
       \<and> (\<forall>fs' e. os_path_isabs root \<and> \<not> os_path_isdir fs root
              \<and> os_makedirs fs root = (fs', Inl e)
            \<longrightarrow> (\<exists>msg. validateInfo env fs doc = (fs', Inl (ValidationException msg))))
       \<and> (os_path_isabs root \<and> \<not> os_path_isdir fs root
              \<and> (os_path_isfile fs root \<or> list_ex (os_path_isfile fs) (ancestors root)
                   \<or> \<not> mkdir_allowed fs root)
            \<longrightarrow> (\<exists>msg. validateInfo env fs doc = (fs, Inl (ValidationException msg))))
       \<and> (os_path_isabs root \<and> os_path_isdir fs root \<and> \<not> os_access_W fs root
            \<longrightarrow> (\<exists>msg. validateInfo env fs doc = (fs, Inl (ValidationException msg))))
       \<and> (\<forall>fs'. os_path_isabs root \<and> \<not> os_path_isdir fs root
              \<and> os_makedirs fs root = (fs', Inr ())
            \<longrightarrow> os_path_isdir fs' root
                \<and> (os_access_W fs' root
                     \<longrightarrow> validateInfo env fs doc = (fs', Inr (doc\<lparr>assetstore_root := root\<rparr>)))
                \<and> (\<not> os_access_W fs' root
                     \<longrightarrow> (\<exists>msg. validateInfo env fs doc = (fs', Inl (ValidationException msg)))))
       \<and> (os_path_isabs root \<and> os_path_isdir fs root \<and> os_access_W fs root
            \<longrightarrow> validateInfo env fs doc = (fs, Inr (doc\<lparr>assetstore_root := root\<rparr>)))
       \<and> (\<forall>fs' doc'. validateInfo env fs doc = (fs', Inr doc')
            \<longrightarrow> doc' = doc\<lparr>assetstore_root := root\<rparr> \<and> os_path_isabs root
                \<and> os_path_isdir fs' root \<and> os_access_W fs' root)"
  (is "?c1 \<and> ?c2 \<and> ?c3 \<and> ?c4 \<and> ?c5 \<and> ?c6 \<and> ?c7")
proof -
  have c1: ?c1
    by (simp add: validateInfo_def Let_def root[symmetric])
  have c2: ?c2
    by (simp add: validateInfo_def Let_def root[symmetric])
  have c3: ?c3
  proof
  assume a: "os_path_isabs root \<and> \<not> os_path_isdir fs root
              \<and> (os_path_isfile fs root \<or> list_ex (os_path_isfile fs) (ancestors root)
                   \<or> \<not> mkdir_allowed fs root)"
  then have "os_makedirs fs root = (fs, Inl OSError)" using os_makedirs_fails by blast
  with a show "\<exists>msg. validateInfo env fs doc = (fs, Inl (ValidationException msg))"
    by (simp add: validateInfo_def Let_def root[symmetric])
  qed
  have c4: ?c4
    by (simp add: validateInfo_def Let_def root[symmetric])
  have c5: ?c5
  proof (intro allI impI)
  fix fs'
  assume a: "os_path_isabs root \<and> \<not> os_path_isdir fs root
              \<and> os_makedirs fs root = (fs', Inr ())"
  then have mk: "os_makedirs fs root = (fs', Inr ())" by simp
  note ok = os_makedirs_result[OF mk]
  have yes: "os_access_W fs' root
      \<longrightarrow> validateInfo env fs doc = (fs', Inr (doc\<lparr>assetstore_root := root\<rparr>))"
    using a by (simp add: validateInfo_def Let_def root[symmetric])
  have no: "\<not> os_access_W fs' root
      \<longrightarrow> (\<exists>msg. validateInfo env fs doc = (fs', Inl (ValidationException msg)))"
    using a by (simp add: validateInfo_def Let_def root[symmetric])
  from ok yes no
  show "os_path_isdir fs' root
                \<and> (os_access_W fs' root
                     \<longrightarrow> validateInfo env fs doc = (fs', Inr (doc\<lparr>assetstore_root := root\<rparr>)))
                \<and> (\<not> os_access_W fs' root
                     \<longrightarrow> (\<exists>msg. validateInfo env fs doc = (fs', Inl (ValidationException msg))))"
    by (intro conjI)
  qed
  have c6: ?c6
    by (simp add: validateInfo_def Let_def root[symmetric])
  have c7: ?c7
  proof (intro allI impI)
  fix fs' doc'
  assume v: "validateInfo env fs doc = (fs', Inr doc')"
  have abs: "os_path_isabs root"
    using v by (auto simp: validateInfo_def Let_def root[symmetric] split: if_splits)
  show "doc' = doc\<lparr>assetstore_root := root\<rparr> \<and> os_path_isabs root
                \<and> os_path_isdir fs' root \<and> os_access_W fs' root"
  proof (cases "os_path_isdir fs root")
    case True
    with v abs show ?thesis
      by (auto simp: validateInfo_def Let_def root[symmetric] split: if_splits)
  next
    case False
    obtain fs1 r where mk: "os_makedirs fs root = (fs1, r)" by (cases "os_makedirs fs root")
    show ?thesis
    proof (cases r)
      case (Inl e)
      with v abs False mk show ?thesis
        by (simp add: validateInfo_def Let_def root[symmetric])
    next
      case (Inr u)
      with mk have "os_path_isdir fs1 root"
        using os_makedirs_result by blast
      with v abs False mk Inr show ?thesis
        by (auto simp: validateInfo_def Let_def root[symmetric] split: if_splits)
    qed
  qed
  qed
  from c1 c2 c3 c4 c5 c6 c7 show ?thesis by (intro conjI)
qed

theorem validateInfo_root_checks_witness:
  "(\<exists>msg. validateInfo \<lparr>env_cwd = ''/'', env_home = ''/home/u'', env_pw_dir = Map.empty\<rparr>
       \<lparr>nodes = [''/'' \<mapsto> Directory], dir_entries = (\<lambda>p. []), dir_st_size = (\<lambda>p. 0),
        writable = (\<lambda>p. True), st_mtime = (\<lambda>p. 0)\<rparr>
       \<lparr>assetstore_root = ''data'', assetstore_id = 1\<rparr> = (\<lparr>nodes = [''/'' \<mapsto> Directory], dir_entries = (\<lambda>p. []), dir_st_size = (\<lambda>p. 0),
        writable = (\<lambda>p. True), st_mtime = (\<lambda>p. 0)\<rparr>, Inl (ValidationException msg)))
   \<and> (\<exists>msg. validateInfo \<lparr>env_cwd = ''/'', env_home = ''/home/u'', env_pw_dir = Map.empty\<rparr>
       \<lparr>nodes = [''/'' \<mapsto> Directory, ''/srv'' \<mapsto> Directory], dir_entries = (\<lambda>p. []),
        dir_st_size = (\<lambda>p. 0), writable = (\<lambda>p. p \<noteq> ''/srv''), st_mtime = (\<lambda>p. 0)\<rparr>
       \<lparr>assetstore_root = ''/srv/data'', assetstore_id = 1\<rparr> = (\<lparr>nodes = [''/'' \<mapsto> Directory, ''/srv'' \<mapsto> Directory], dir_entries = (\<lambda>p. []),
        dir_st_size = (\<lambda>p. 0), writable = (\<lambda>p. p \<noteq> ''/srv''), st_mtime = (\<lambda>p. 0)\<rparr>, Inl (ValidationException msg)))
   \<and> (\<exists>fs'. validateInfo \<lparr>env_cwd = ''/'', env_home = ''/home/u'', env_pw_dir = Map.empty\<rparr>
       \<lparr>nodes = [''/'' \<mapsto> Directory], dir_entries = (\<lambda>p. []), dir_st_size = (\<lambda>p. 0),
        writable = (\<lambda>p. True), st_mtime = (\<lambda>p. 0)\<rparr>
       \<lparr>assetstore_root = ''/data'', assetstore_id = 1\<rparr> = (fs', Inr \<lparr>assetstore_root = ''/data'', assetstore_id = 1\<rparr>)
          \<and> os_path_isdir fs' ''/data'')"
proof -
  let ?ENV = "\<lparr>env_cwd = ''/'', env_home = ''/home/u'', env_pw_dir = Map.empty\<rparr>"
  let ?FS0 = "\<lparr>nodes = [''/'' \<mapsto> Directory], dir_entries = (\<lambda>p. []), dir_st_size = (\<lambda>p. 0),
        writable = (\<lambda>p. True), st_mtime = (\<lambda>p. 0)\<rparr>"
  let ?FS1 = "\<lparr>nodes = [''/'' \<mapsto> Directory, ''/srv'' \<mapsto> Directory], dir_entries = (\<lambda>p. []),
        dir_st_size = (\<lambda>p. 0), writable = (\<lambda>p. p \<noteq> ''/srv''), st_mtime = (\<lambda>p. 0)\<rparr>"
  let ?DREL = "\<lparr>assetstore_root = ''data'', assetstore_id = 1\<rparr>"
  let ?DSRV = "\<lparr>assetstore_root = ''/srv/data'', assetstore_id = 1\<rparr>"
  let ?DOC = "\<lparr>assetstore_root = ''/data'', assetstore_id = 1\<rparr>"
  have r1: "''data'' = os_path_expanduser ?ENV (assetstore_root ?DREL)"
    by (simp add: os_path_expanduser_def)
  have r2: "''/data'' = os_path_expanduser ?ENV (assetstore_root ?DOC)"
    by (simp add: os_path_expanduser_def)
  have r3: "''/srv/data'' = os_path_expanduser ?ENV (assetstore_root ?DSRV)"
    by (simp add: os_path_expanduser_def)
  have anc: "ancestors ''/data'' = [''/'']" by code_simp
  have anc3: "ancestors ''/srv/data'' = [''/'', ''/srv'']" by code_simp
  have a: "\<exists>msg. validateInfo ?ENV ?FS0 ?DREL = (?FS0, Inl (ValidationException msg))"
    by (rule validateInfo_root_checks[OF r1, of ?FS0, THEN conjunct1, THEN mp])
       (simp add: os_path_isabs_def)
  have c: "\<exists>msg. validateInfo ?ENV ?FS1 ?DSRV = (?FS1, Inl (ValidationException msg))"
    by (rule validateInfo_root_checks[OF r3, of ?FS1, THEN conjunct2, THEN conjunct2,
          THEN conjunct1, THEN mp])
       (simp add: os_path_isabs_def os_path_isdir_def os_path_exists_def mkdir_allowed_def anc3)
  have "\<exists>fs'. os_makedirs ?FS0 ''/data'' = (fs', Inr ())"
    by (simp add: os_makedirs_def os_path_exists_def os_path_isfile_def mkdir_allowed_def anc)
  then obtain fs' where mk: "os_makedirs ?FS0 ''/data'' = (fs', Inr ())" by blast
  have hyp: "os_path_isabs ''/data'' \<and> \<not> os_path_isdir ?FS0 ''/data''
      \<and> os_makedirs ?FS0 ''/data'' = (fs', Inr ())"
    using mk by (simp add: os_path_isabs_def os_path_isdir_def)
  note T = validateInfo_root_checks[OF r2, of ?FS0, THEN conjunct2, THEN conjunct2,
          THEN conjunct2, THEN conjunct2, THEN conjunct1, THEN spec, THEN mp, OF hyp]
  have w: "os_access_W fs' ''/data''"
    using mk by (auto simp: os_makedirs_def os_access_W_def os_path_exists_def split: if_splits)
  from T w have "validateInfo ?ENV ?FS0 ?DOC = (fs', Inr (?DOC\<lparr>assetstore_root := ''/data''\<rparr>))
      \<and> os_path_isdir fs' ''/data''"
    by blast
  then have b: "\<exists>fs'. validateInfo ?ENV ?FS0 ?DOC = (fs', Inr ?DOC) \<and> os_path_isdir fs' ''/data''"
    by auto
  from a c b show ?thesis by simp
qed

text \<open>
  A root that does not exist as a directory is not rejected: \<^verbatim>\<open>/data\<close> is missing
  below an existing, writable \<^verbatim>\<open>/\<close>, and \<^verbatim>\<open>validateInfo\<close> accepts the document.
\<close>

theorem validateInfo_root_checks_counterexample:
  "\<not> os_path_isdir
       \<lparr>nodes = [''/'' \<mapsto> Directory], dir_entries = (\<lambda>p. []), dir_st_size = (\<lambda>p. 0),
        writable = (\<lambda>p. True), st_mtime = (\<lambda>p. 0)\<rparr> ''/data''
   \<and> snd (validateInfo \<lparr>env_cwd = ''/'', env_home = ''/home/u'', env_pw_dir = Map.empty\<rparr>
       \<lparr>nodes = [''/'' \<mapsto> Directory], dir_entries = (\<lambda>p. []), dir_st_size = (\<lambda>p. 0),
        writable = (\<lambda>p. True), st_mtime = (\<lambda>p. 0)\<rparr>
       \<lparr>assetstore_root = ''/data'', assetstore_id = 1\<rparr>) = Inr \<lparr>assetstore_root = ''/data'', assetstore_id = 1\<rparr>"
proof -
  have anc: "ancestors ''/data'' = [''/'']" by code_simp
  show ?thesis
    by (simp add: validateInfo_def os_path_expanduser_def os_path_isabs_def os_path_isdir_def
          os_makedirs_def os_path_exists_def os_path_isfile_def os_access_W_def mkdir_allowed_def
          anc Let_def)
qed

subsection \<open>Importing files\<close>

lemma normpath_abs:
  assumes "p \<noteq> []" and "hd p = CHR ''/''"
  shows "os_path_isabs (os_path_normpath p)"
  using assms
  by (auto simp: os_path_normpath_def os_path_isabs_def Let_def numeral_2_eq_2)

lemma abspath_abs:
  assumes cwd: "os_path_isabs (env_cwd env)"
  shows "os_path_isabs (os_path_abspath env p)"
proof (cases "os_path_isabs p")
  case True
  then have "p \<noteq> []" and "hd p = CHR ''/''" by (auto simp: os_path_isabs_def)
  then have "os_path_isabs (os_path_normpath p)" by (rule normpath_abs)
  with True show ?thesis by (simp add: os_path_abspath_def)
next
  case False
  have "os_path_join (env_cwd env) p \<noteq> [] \<and> hd (os_path_join (env_cwd env) p) = CHR ''/''"
    using cwd False by (auto simp: os_path_join_def os_path_isabs_def)
  then have "os_path_isabs (os_path_normpath (os_path_join (env_cwd env) p))"
    using normpath_abs by blast
  with False show ?thesis by (simp add: os_path_abspath_def)
qed

lemma expanduser_no_tilde: "p \<noteq> [] \<and> hd p \<noteq> CHR ''~'' \<Longrightarrow> os_path_expanduser env p = p"
  by (simp add: os_path_expanduser_def)

lemma join_no_tilde:
  "a \<noteq> [] \<and> hd a \<noteq> CHR ''~''
     \<Longrightarrow> os_path_join a b \<noteq> [] \<and> hd (os_path_join a b) \<noteq> CHR ''~''"
  by (auto simp: os_path_join_def)

lemma importFile_regular:
  assumes cwd: "os_path_isabs (env_cwd env)"
    and reg: "nodes fs p = Some (RegularFile content)"
    and nt: "p \<noteq> [] \<and> hd p \<noteq> CHR ''~''"
  shows "\<exists>f. importFile env assetstore fs item p user name = Inr f
            \<and> file_imported f
            \<and> file_path f = os_path_abspath env p
            \<and> os_path_isabs (file_path f)
            \<and> fullPath assetstore f = file_path f
            \<and> file_size f = length content
            \<and> file_mtime f = st_mtime fs p"
  using reg abspath_abs[OF cwd]
  by (simp add: importFile_def os_stat_size_def Let_def file_save_def createFile_def fullPath_def
        expanduser_no_tilde[OF nt])

lemma importFile_imported_record:
  assumes cwd: "os_path_isabs (env_cwd env)"
    and nd: "\<not> os_path_isdir fs p"
    and nt: "p \<noteq> [] \<and> hd p \<noteq> CHR ''~''"
    and ok: "importFile env assetstore fs item p user name = Inr f"
  shows "imported_record env assetstore fs f"
proof -
  from ok nd obtain content where reg: "nodes fs p = Some (RegularFile content)"
    by (auto simp: importFile_def os_stat_size_def os_path_isdir_def
             split: option.splits node.splits)
  from importFile_regular[OF cwd reg nt, of assetstore item user name] ok
  show ?thesis using reg by (auto simp: imported_record_def)
qed

lemma import_saved_records:
  assumes cwd: "os_path_isabs (env_cwd env)"
  shows "importData fuel env assetstore fs parent parentType importPath user = Some (saved, r)
           \<Longrightarrow> importPath \<noteq> [] \<and> hd importPath \<noteq> CHR ''~''
           \<Longrightarrow> \<forall>e \<in> set saved. imported_record env assetstore fs (snd e)"
    and "importEntries fuel env assetstore fs parent parentType importPath user names = Some (saved, r)
           \<Longrightarrow> importPath \<noteq> [] \<and> hd importPath \<noteq> CHR ''~''
           \<Longrightarrow> \<forall>e \<in> set saved. imported_record env assetstore fs (snd e)"
  using cwd
proof (induction fuel env assetstore fs parent parentType importPath user
         and fuel env assetstore fs parent parentType importPath user names
         arbitrary: saved r and saved r rule: importData_importEntries.induct)
  case (1 fuel env assetstore fs parent parentType importPath user)
  then show ?case by (auto split: if_splits)
next
  case (2 fuel env assetstore fs parent parentType importPath user)
  then show ?case by simp
next
  case (3 env assetstore fs parent parentType importPath user name names)
  show ?case
  proof (cases "os_path_isdir fs (os_path_join importPath name)")
    case True
    with "3.prems" show ?thesis by simp
  next
    case nd: False
    show ?thesis
    proof (cases "parentType \<noteq> ''folder''")
      case True
      with nd "3.prems" show ?thesis by auto
    next
      case False
      then have pt: "parentType = ''folder''" by simp
      show ?thesis
      proof (cases "importFile env assetstore fs (createItem name user parent)
                   (os_path_join importPath name) user (Some name)")
        case (Inl e)
        with nd pt "3.prems" show ?thesis by auto
      next
        case (Inr f)
        note rec = importFile_imported_record[OF "3.prems"(3) nd join_no_tilde[OF "3.prems"(2)] Inr]
        from "3.prems"(1) nd pt Inr obtain rest where
          rest: "importEntries 0 env assetstore fs parent parentType importPath user names = Some (rest, r)"
          and sv: "saved = (createItem name user parent, f) # rest"
          by (auto split: option.splits)
        from "3.IH"[OF nd _ Inr rest "3.prems"(2) "3.prems"(3)] pt
        have "\<forall>e \<in> set rest. imported_record env assetstore fs (snd e)" by simp
        with rec sv show ?thesis by simp
      qed
    qed
  qed
next
  case (4 fuel env assetstore fs parent parentType importPath user name names)
  show ?case
  proof (cases "os_path_isdir fs (os_path_join importPath name)")
    case isd: True
    show ?thesis
    proof (cases "importData fuel env assetstore fs (createFolder parent name parentType user)
                   ''folder'' (os_path_join importPath name) user")
      case None
      with isd "4.prems" show ?thesis by simp
    next
      case (Some res)
      obtain sub err where res: "res = (sub, err)" by (cases res)
      have subok: "\<forall>e \<in> set sub. imported_record env assetstore fs (snd e)"
        using "4.IH"(1)[OF isd _ join_no_tilde[OF "4.prems"(2)] "4.prems"(3)] Some res by simp
      show ?thesis
      proof (cases err)
        case (Some e)
        with isd \<open>importData fuel env assetstore fs (createFolder parent name parentType user)
                   ''folder'' (os_path_join importPath name) user = Some res\<close> res "4.prems"(1)
        have "saved = sub" by simp
        with subok show ?thesis by simp
      next
        case None
        with isd \<open>importData fuel env assetstore fs (createFolder parent name parentType user)
                   ''folder'' (os_path_join importPath name) user = Some res\<close> res "4.prems"(1)
        obtain rest where
          rest: "importEntries (Suc fuel) env assetstore fs parent parentType importPath user names
                   = Some (rest, r)"
          and sv: "saved = sub @ rest"
          by (auto split: option.splits)
        have "\<forall>e \<in> set rest. imported_record env assetstore fs (snd e)"
          using "4.IH"(2)[OF isd _ _ _ rest "4.prems"(2) "4.prems"(3)]
            \<open>importData fuel env assetstore fs (createFolder parent name parentType user)
                   ''folder'' (os_path_join importPath name) user = Some res\<close> res None
          by simp
        with subok sv show ?thesis by auto
      qed
    qed
  next
    case nd: False
    show ?thesis
    proof (cases "parentType \<noteq> ''folder''")
      case True
      with nd "4.prems" show ?thesis by auto
    next
      case False
      then have pt: "parentType = ''folder''" by simp
      show ?thesis
      proof (cases "importFile env assetstore fs (createItem name user parent)
                   (os_path_join importPath name) user (Some name)")
        case (Inl e)
        with nd pt "4.prems" show ?thesis by auto
      next
        case (Inr f)
        note rec = importFile_imported_record[OF "4.prems"(3) nd join_no_tilde[OF "4.prems"(2)] Inr]
        from "4.prems"(1) nd pt Inr obtain rest where
          rest: "importEntries (Suc fuel) env assetstore fs parent parentType importPath user names
                   = Some (rest, r)"
          and sv: "saved = (createItem name user parent, f) # rest"
          by (auto split: option.splits)
        from "4.IH"(3)[OF nd _ Inr rest "4.prems"(2) "4.prems"(3)] pt
        have "\<forall>e \<in> set rest. imported_record env assetstore fs (snd e)" by simp
        with rec sv show ?thesis by simp
      qed
    qed
  qed
qed


lemma import_returns:
  shows "import_depth_ok fuel fs importPath
           \<Longrightarrow> importData fuel env assetstore fs parent parentType importPath user \<noteq> None"
    and "list_all (\<lambda>name. os_path_isdir fs (os_path_join importPath name)
                     \<longrightarrow> (0 < fuel \<and> import_depth_ok (fuel - 1) fs (os_path_join importPath name))) names
           \<Longrightarrow> importEntries fuel env assetstore fs parent parentType importPath user names \<noteq> None"
proof (induction fuel env assetstore fs parent parentType importPath user
         and fuel env assetstore fs parent parentType importPath user names
         rule: importData_importEntries.induct)
  case (1 fuel env assetstore fs parent parentType importPath user)
  show ?case
  proof (cases "os_path_isdir fs importPath")
    case False
    then show ?thesis by simp
  next
    case True
    have "list_all (\<lambda>name. os_path_isdir fs (os_path_join importPath name)
                     \<longrightarrow> (0 < fuel \<and> import_depth_ok (fuel - 1) fs (os_path_join importPath name)))
            (dir_entries fs importPath)"
      using "1.prems" by (cases fuel) (simp_all add: list_all_iff)
    with "1.IH" True show ?thesis by simp
  qed
next
  case (2 fuel env assetstore fs parent parentType importPath user)
  then show ?case by simp
next
  case (3 env assetstore fs parent parentType importPath user name names)
  from "3.prems" have nd: "\<not> os_path_isdir fs (os_path_join importPath name)"
    and rest: "list_all (\<lambda>name. os_path_isdir fs (os_path_join importPath name)
                     \<longrightarrow> (0 < (0::nat) \<and> import_depth_ok (0 - 1) fs (os_path_join importPath name))) names"
    by auto
  show ?case
  proof (cases "parentType \<noteq> ''folder''")
    case True
    with nd show ?thesis by simp
  next
    case False
    show ?thesis
    proof (cases "importFile env assetstore fs (createItem name user parent)
                   (os_path_join importPath name) user (Some name)")
      case (Inl e)
      with nd False show ?thesis by simp
    next
      case (Inr f)
      from "3.IH"[OF nd False Inr rest] nd False Inr show ?thesis
        by (auto split: option.splits)
    qed
  qed
next
  case (4 fuel env assetstore fs parent parentType importPath user name names)
  from "4.prems" have
    rest: "list_all (\<lambda>name. os_path_isdir fs (os_path_join importPath name)
                     \<longrightarrow> (0 < Suc fuel \<and> import_depth_ok (Suc fuel - 1) fs (os_path_join importPath name))) names"
    by simp
  show ?case
  proof (cases "os_path_isdir fs (os_path_join importPath name)")
    case isd: True
    with "4.prems" have deep: "import_depth_ok fuel fs (os_path_join importPath name)" by simp
    from "4.IH"(1)[OF isd deep] obtain sub err where
      sub: "importData fuel env assetstore fs (createFolder parent name parentType user)
                   ''folder'' (os_path_join importPath name) user = Some (sub, err)"
      by auto
    show ?thesis
    proof (cases err)
      case (Some e)
      with isd sub show ?thesis by simp
    next
      case None
      from "4.IH"(2)[OF isd sub[unfolded None] refl refl rest] isd sub None
      show ?thesis by (auto split: option.splits)
    qed
  next
    case nd: False
    show ?thesis
    proof (cases "parentType \<noteq> ''folder''")
      case True
      with nd show ?thesis by simp
    next
      case False
      show ?thesis
      proof (cases "importFile env assetstore fs (createItem name user parent)
                   (os_path_join importPath name) user (Some name)")
        case (Inl e)
        with nd False show ?thesis by simp
      next
        case (Inr f)
        from "4.IH"(3)[OF nd False Inr rest] nd False Inr show ?thesis
          by (auto split: option.splits)
      qed
    qed
  qed
qed

lemma same_shape_isdir:
  assumes s: "same_shape fs fs'"
  shows "os_path_isdir fs' p = os_path_isdir fs p"
proof -
  from s have "node_shape (nodes fs p) = node_shape (nodes fs' p)" by (simp add: same_shape_def)
  then show ?thesis
    by (auto simp: node_shape_def os_path_isdir_def split: option.splits node.splits)
qed

lemma same_shape_importFile:
  assumes s: "same_shape fs fs'"
  shows "importFile env assetstore fs' item p user name = importFile env assetstore fs item p user name"
proof -
  have m: "st_mtime fs' p = st_mtime fs p" using s by (simp add: same_shape_def)
  show ?thesis unfolding importFile_def same_shape_stat_size[OF s] m ..
qed

lemma same_shape_import:
  assumes s: "same_shape fs fs'"
  shows "importData fuel env assetstore fs' parent parentType importPath user
           = importData fuel env assetstore fs parent parentType importPath user"
    and "importEntries fuel env assetstore fs' parent parentType importPath user names
           = importEntries fuel env assetstore fs parent parentType importPath user names"
  using s
proof (induction fuel env assetstore fs parent parentType importPath user
         and fuel env assetstore fs parent parentType importPath user names
         rule: importData_importEntries.induct)
  case (1 fuel env assetstore fs parent parentType importPath user)
  have "dir_entries fs' = dir_entries fs" using "1.prems" by (simp add: same_shape_def)
  with 1 show ?case by (simp add: same_shape_isdir[OF "1.prems"])
next
  case (2 fuel env assetstore fs parent parentType importPath user)
  then show ?case by simp
next
  case (3 env assetstore fs parent parentType importPath user name names)
  note sd = same_shape_isdir[OF "3.prems"] and sf = same_shape_importFile[OF "3.prems"]
  show ?case
  proof (cases "os_path_isdir fs (os_path_join importPath name)")
    case True
    then show ?thesis by (simp add: sd)
  next
    case nd: False
    show ?thesis
    proof (cases "parentType \<noteq> ''folder''")
      case True
      with nd show ?thesis by (simp add: sd)
    next
      case pt: False
      show ?thesis
      proof (cases "importFile env assetstore fs (createItem name user parent)
                   (os_path_join importPath name) user (Some name)")
        case (Inl e)
        with nd pt show ?thesis by (simp add: sd sf)
      next
        case (Inr f)
        have "importEntries 0 env assetstore fs' parent parentType importPath user names
            = importEntries 0 env assetstore fs parent parentType importPath user names"
          using "3.IH"[OF nd pt Inr "3.prems"] .
        with nd pt Inr show ?thesis by (simp add: sd sf)
      qed
    qed
  qed
next
  case (4 fuel env assetstore fs parent parentType importPath user name names)
  note sd = same_shape_isdir[OF "4.prems"] and sf = same_shape_importFile[OF "4.prems"]
  show ?case
  proof (cases "os_path_isdir fs (os_path_join importPath name)")
    case isd: True
    let ?sub = "\<lambda>fs0. importData fuel env assetstore fs0 (createFolder parent name parentType user)
                   ''folder'' (os_path_join importPath name) user"
    have sub: "?sub fs' = ?sub fs" using "4.IH"(1)[OF isd "4.prems"] .
    show ?thesis
    proof (cases "?sub fs")
      case None
      with isd sub show ?thesis by (simp add: sd)
    next
      case (Some res)
      obtain saved err where res: "res = (saved, err)" by (cases res)
      show ?thesis
      proof (cases err)
        case (Some e)
        with isd sub \<open>?sub fs = Some res\<close> res show ?thesis by (simp add: sd)
      next
        case None
        have "importEntries (Suc fuel) env assetstore fs' parent parentType importPath user names
            = importEntries (Suc fuel) env assetstore fs parent parentType importPath user names"
          using "4.IH"(2)[OF isd _ _ _ "4.prems"] \<open>?sub fs = Some res\<close> res None by simp
        with isd sub \<open>?sub fs = Some res\<close> res None show ?thesis by (simp add: sd)
      qed
    qed
  next
    case nd: False
    show ?thesis
    proof (cases "parentType \<noteq> ''folder''")
      case True
      with nd show ?thesis by (simp add: sd)
    next
      case pt: False
      show ?thesis
      proof (cases "importFile env assetstore fs (createItem name user parent)
                   (os_path_join importPath name) user (Some name)")
        case (Inl e)
        with nd pt show ?thesis by (simp add: sd sf)
      next
        case (Inr f)
        have "importEntries (Suc fuel) env assetstore fs' parent parentType importPath user names
            = importEntries (Suc fuel) env assetstore fs parent parentType importPath user names"
          using "4.IH"(3)[OF nd pt Inr "4.prems"] .
        with nd pt Inr show ?thesis by (simp add: sd sf)
      qed
    qed
  qed
qed

text \<open>
  For an import path that does not start with \<open>~\<close>, and a working directory that is an
  absolute path: \<^verbatim>\<open>importFile\<close> on a regular file returns a file record that is marked
  imported, whose stored path is the absolute path of the file (the adapter resolves
  the record to this path itself, not to a path under the root), and whose size and
  modification time are those the file system reports for the file. Every file record
  \<^verbatim>\<open>importData\<close> saves is such a record of a regular file of the file system.
  \<^verbatim>\<open>importData\<close> returns when the tree below the import path is no deeper than the
  fuel. The importer returns no file system: it writes nothing. And it does not read
  the bytes of any file: on a file system with the same files of the same lengths and
  times it returns the same.
\<close>

lemma import_plain_paths:
  assumes cwd: "os_path_isabs (env_cwd env)"
  shows "(\<forall>content. nodes fs p = Some (RegularFile content) \<and> p \<noteq> [] \<and> hd p \<noteq> CHR ''~''
            \<longrightarrow> (\<exists>f. importFile env assetstore fs item p user name = Inr f
                   \<and> file_imported f
                   \<and> file_path f = os_path_abspath env p
                   \<and> os_path_isabs (file_path f)
                   \<and> fullPath assetstore f = file_path f
                   \<and> file_size f = length content
                   \<and> file_mtime f = st_mtime fs p))
       \<and> (\<forall>saved r. importData fuel env assetstore fs parent parentType importPath user
                        = Some (saved, r)
                      \<and> importPath \<noteq> [] \<and> hd importPath \<noteq> CHR ''~''
            \<longrightarrow> (\<forall>e \<in> set saved. imported_record env assetstore fs (snd e)))
       \<and> (import_depth_ok fuel fs importPath
            \<longrightarrow> importData fuel env assetstore fs parent parentType importPath user \<noteq> None)
       \<and> (\<forall>fs'. same_shape fs fs'
            \<longrightarrow> importFile env assetstore fs' item p user name
                  = importFile env assetstore fs item p user name
                \<and> importData fuel env assetstore fs' parent parentType importPath user
                  = importData fuel env assetstore fs parent parentType importPath user)"
  (is "?c1 \<and> ?c2 \<and> ?c3 \<and> ?c4")
proof -
  have c1: ?c1 using importFile_regular[OF cwd] by blast
  have c2: ?c2 using import_saved_records(1)[OF cwd] by blast
  have c3: ?c3 using import_returns(1) by blast
  have c4: ?c4 using same_shape_importFile same_shape_import(1) by blast
  from c1 c2 c3 c4 show ?thesis by (intro conjI)
qed

text \<open>
  C8 (import fidelity). \<^verbatim>\<open>importFile\<close> takes the size and the modification time from
  the path it is given, and stores \<^verbatim>\<open>abspath(expanduser(path))\<close>: for a path that
  starts with \<open>~\<close> the stored path is not the absolute path of the file that was read.
  The working directory \<^verbatim>\<open>/work\<close> holds a directory named \<open>~\<close> with a file \<open>f\<close> of three
  bytes and modification time 7 (the file system knows it as \<^verbatim>\<open>~/f\<close> and as
  \<^verbatim>\<open>/work/~/f\<close>), and the home directory \<^verbatim>\<open>/home/u\<close> holds another file \<open>f\<close>, of one
  byte and modification time 2. \<^verbatim>\<open>importFile\<close> on \<^verbatim>\<open>~/f\<close>, and \<^verbatim>\<open>importData\<close> on the
  directory \<open>~\<close>, save a record with the size 3 and the time 7 of \<^verbatim>\<open>/work/~/f\<close> under the
  path \<^verbatim>\<open>/home/u/f\<close>: the absolute path of the file is \<^verbatim>\<open>/work/~/f\<close>, and the stored
  path names a file of another size and time.
\<close>

theorem importFile_stores_expanded_path:
  "importFile \<lparr>env_cwd = ''/work'', env_home = ''/home/u'', env_pw_dir = Map.empty\<rparr> \<lparr>assetstore_root = ''/r'', assetstore_id = 1\<rparr>
       \<lparr>nodes = [''~'' \<mapsto> Directory, ''~/f'' \<mapsto> RegularFile [1, 2, 3],
                 ''/work/~'' \<mapsto> Directory, ''/work/~/f'' \<mapsto> RegularFile [1, 2, 3],
                 ''/home/u/f'' \<mapsto> RegularFile [9]],
        dir_entries = (\<lambda>p. if p = ''~'' \<or> p = ''/work/~'' then [''f''] else []),
        dir_st_size = (\<lambda>p. 0), writable = (\<lambda>p. True),
        st_mtime = (\<lambda>p. if p = ''/home/u/f'' then 2 else 7)\<rparr> (ItemDoc (ParentDoc 0) ''f'') ''~/f'' 5 (Some ''f'')
     = Inr \<lparr>file_name = ''f'', file_sha512 = [], file_path = ''/home/u/f'', file_size = 3,
        file_imported = True, file_mtime = 7, file_assetstoreId = 1\<rparr>
   \<and> importData 0 \<lparr>env_cwd = ''/work'', env_home = ''/home/u'', env_pw_dir = Map.empty\<rparr> \<lparr>assetstore_root = ''/r'', assetstore_id = 1\<rparr>
       \<lparr>nodes = [''~'' \<mapsto> Directory, ''~/f'' \<mapsto> RegularFile [1, 2, 3],
                 ''/work/~'' \<mapsto> Directory, ''/work/~/f'' \<mapsto> RegularFile [1, 2, 3],
                 ''/home/u/f'' \<mapsto> RegularFile [9]],
        dir_entries = (\<lambda>p. if p = ''~'' \<or> p = ''/work/~'' then [''f''] else []),
        dir_st_size = (\<lambda>p. 0), writable = (\<lambda>p. True),
        st_mtime = (\<lambda>p. if p = ''/home/u/f'' then 2 else 7)\<rparr> (ParentDoc 0) ''folder'' ''~'' 5
     = Some ([(ItemDoc (ParentDoc 0) ''f'', \<lparr>file_name = ''f'', file_sha512 = [], file_path = ''/home/u/f'', file_size = 3,
        file_imported = True, file_mtime = 7, file_assetstoreId = 1\<rparr>)], None)
   \<and> os_path_abspath \<lparr>env_cwd = ''/work'', env_home = ''/home/u'', env_pw_dir = Map.empty\<rparr> ''~/f'' = ''/work/~/f''
   \<and> os_path_expanduser \<lparr>env_cwd = ''/work'', env_home = ''/home/u'', env_pw_dir = Map.empty\<rparr> ''~/f'' = ''/home/u/f''
   \<and> nodes \<lparr>nodes = [''~'' \<mapsto> Directory, ''~/f'' \<mapsto> RegularFile [1, 2, 3],
                 ''/work/~'' \<mapsto> Directory, ''/work/~/f'' \<mapsto> RegularFile [1, 2, 3],
                 ''/home/u/f'' \<mapsto> RegularFile [9]],
        dir_entries = (\<lambda>p. if p = ''~'' \<or> p = ''/work/~'' then [''f''] else []),
        dir_st_size = (\<lambda>p. 0), writable = (\<lambda>p. True),
        st_mtime = (\<lambda>p. if p = ''/home/u/f'' then 2 else 7)\<rparr> ''~/f'' = Some (RegularFile [1, 2, 3])
   \<and> nodes \<lparr>nodes = [''~'' \<mapsto> Directory, ''~/f'' \<mapsto> RegularFile [1, 2, 3],
                 ''/work/~'' \<mapsto> Directory, ''/work/~/f'' \<mapsto> RegularFile [1, 2, 3],
                 ''/home/u/f'' \<mapsto> RegularFile [9]],
        dir_entries = (\<lambda>p. if p = ''~'' \<or> p = ''/work/~'' then [''f''] else []),
        dir_st_size = (\<lambda>p. 0), writable = (\<lambda>p. True),
        st_mtime = (\<lambda>p. if p = ''/home/u/f'' then 2 else 7)\<rparr> ''/work/~/f'' = Some (RegularFile [1, 2, 3])
   \<and> nodes \<lparr>nodes = [''~'' \<mapsto> Directory, ''~/f'' \<mapsto> RegularFile [1, 2, 3],
                 ''/work/~'' \<mapsto> Directory, ''/work/~/f'' \<mapsto> RegularFile [1, 2, 3],
                 ''/home/u/f'' \<mapsto> RegularFile [9]],
        dir_entries = (\<lambda>p. if p = ''~'' \<or> p = ''/work/~'' then [''f''] else []),
        dir_st_size = (\<lambda>p. 0), writable = (\<lambda>p. True),
        st_mtime = (\<lambda>p. if p = ''/home/u/f'' then 2 else 7)\<rparr> ''/home/u/f'' = Some (RegularFile [9])
   \<and> st_mtime \<lparr>nodes = [''~'' \<mapsto> Directory, ''~/f'' \<mapsto> RegularFile [1, 2, 3],
                 ''/work/~'' \<mapsto> Directory, ''/work/~/f'' \<mapsto> RegularFile [1, 2, 3],
                 ''/home/u/f'' \<mapsto> RegularFile [9]],
        dir_entries = (\<lambda>p. if p = ''~'' \<or> p = ''/work/~'' then [''f''] else []),
        dir_st_size = (\<lambda>p. 0), writable = (\<lambda>p. True),
        st_mtime = (\<lambda>p. if p = ''/home/u/f'' then 2 else 7)\<rparr> ''/work/~/f'' = 7
   \<and> st_mtime \<lparr>nodes = [''~'' \<mapsto> Directory, ''~/f'' \<mapsto> RegularFile [1, 2, 3],
                 ''/work/~'' \<mapsto> Directory, ''/work/~/f'' \<mapsto> RegularFile [1, 2, 3],
                 ''/home/u/f'' \<mapsto> RegularFile [9]],
        dir_entries = (\<lambda>p. if p = ''~'' \<or> p = ''/work/~'' then [''f''] else []),
        dir_st_size = (\<lambda>p. 0), writable = (\<lambda>p. True),
        st_mtime = (\<lambda>p. if p = ''/home/u/f'' then 2 else 7)\<rparr> ''/home/u/f'' = 2"
  (is "?c1 \<and> ?c2 \<and> ?c3 \<and> ?c4 \<and> ?c5 \<and> ?c6 \<and> ?c7 \<and> ?c8 \<and> ?c9")
proof -
  have ex: ?c4
    by (simp add: os_path_expanduser_def rstrip_slash_def)
  have ab: "os_path_abspath \<lparr>env_cwd = ''/work'', env_home = ''/home/u'', env_pw_dir = Map.empty\<rparr> ''/home/u/f'' = ''/home/u/f''"
    by (simp add: os_path_abspath_def os_path_isabs_def os_path_normpath_def Let_def)
  have c3: ?c3
    by (simp add: os_path_abspath_def os_path_isabs_def os_path_join_def os_path_normpath_def
          Let_def)
  have c1: ?c1
    unfolding importFile_def ex ab
    by (simp add: os_stat_size_def createFile_def file_save_def Let_def)
  have j: "os_path_join ''~'' ''f'' = ''~/f''" by (simp add: os_path_join_def)
  have c2: ?c2
    using c1 by (simp add: os_path_isdir_def j createItem_def)
  have c5: ?c5 and c6: ?c6 and c7: ?c7 and c8: ?c8 and c9: ?c9 by simp_all
  from c1 c2 c3 ex c5 c6 c7 c8 c9 show ?thesis by (intro conjI)
qed

end
